theory Spec2Isabelle
  imports Complex_Main "HOL-Library.AList"
begin

section \<open>wplace-ar: projection, distance, tile grid, orientation filter, location tracker\<close>

text \<open>
  A shallow embedding of the JavaScript modules \<^verbatim>\<open>utils.js\<close>, \<^verbatim>\<open>tiles.js\<close>,
  \<^verbatim>\<open>controls.js\<close>, \<^verbatim>\<open>geolocation.js\<close> and the handlers of \<^verbatim>\<open>ui.js\<close> that drive them.
\<close>

subsection \<open>JavaScript numbers\<close>

text \<open>
  A JavaScript number is an IEEE 754 double: a finite value, an infinity or \<^verbatim>\<open>NaN\<close>. A finite
  double is modelled by the real number it denotes, and the arithmetic of \<^verbatim>\<open>utils.js\<close> rounds
  the exact result of every operation to the nearest double, ties to the even significand,
  as the language prescribes.

  \<open>round_even\<close> rounds a real number to the nearest integer, a tie to the even one.
  \<open>ulp_exponent x\<close> is the exponent of the unit in the last place of the doubles of the
  magnitude of \<open>x\<close>: 52 below the binary exponent of \<open>x\<close>, and - 1074 for the subnormal
  numbers. \<open>nearest x\<close> rounds \<open>x\<close> to 53 significant bits, and \<open>rnd\<close> answers \<open>None\<close> where the
  rounded number exceeds the largest double, where JavaScript answers an infinity.
\<close>

definition round_even :: "real \<Rightarrow> int" where
  "round_even r = (let f = \<lfloor>r\<rfloor> in
     if r - of_int f < 1 / 2 then f
     else if 1 / 2 < r - of_int f then f + 1
     else if even f then f else f + 1)"

definition ulp_exponent :: "real \<Rightarrow> int" where
  "ulp_exponent x = max \<lfloor>log 2 \<bar>x\<bar>\<rfloor> (- 1022) - 52"

definition nearest :: "real \<Rightarrow> real" where
  "nearest x = (if x = 0 then 0 else
     (let q = 2 powi ulp_exponent x in of_int (round_even (x / q)) * q))"

definition rnd :: "real \<Rightarrow> real option" where
  "rnd x = (if 2 ^ 1024 \<le> \<bar>nearest x\<bar> then None else Some (nearest x))"

text \<open>The finite doubles are the numbers rounding leaves as they are.\<close>

definition is_double :: "real \<Rightarrow> bool" where
  "is_double x \<longleftrightarrow> rnd x = Some x"

text \<open>
  A number is \<open>Some\<close> finite double, or \<open>None\<close> for \<^verbatim>\<open>NaN\<close> and the two infinities, which the
  model does not tell apart: in the expressions of \<^verbatim>\<open>utils.js\<close> a value that is not finite
  never leads back to a finite one (the divisors are nonzero constants, and the arguments of
  \<^verbatim>\<open>Math.atan2\<close> are square roots of finite numbers, so finite or \<^verbatim>\<open>NaN\<close>). The sign of a
  zero is not modelled; no result of the code depends on it.
\<close>

type_synonym number = "real option"

definition fadd :: "number \<Rightarrow> number \<Rightarrow> number" where
  "fadd a b = Option.bind a (\<lambda>x. Option.bind b (\<lambda>y. rnd (x + y)))"

definition fsub :: "number \<Rightarrow> number \<Rightarrow> number" where
  "fsub a b = Option.bind a (\<lambda>x. Option.bind b (\<lambda>y. rnd (x - y)))"

definition fmul :: "number \<Rightarrow> number \<Rightarrow> number" where
  "fmul a b = Option.bind a (\<lambda>x. Option.bind b (\<lambda>y. rnd (x * y)))"

text \<open>Division by a finite constant other than zero, the only division the code makes.\<close>

definition fdiv :: "number \<Rightarrow> real \<Rightarrow> number" where
  "fdiv a d = Option.bind a (\<lambda>x. rnd (x / d))"

subsection \<open>The \<^verbatim>\<open>Math\<close> object\<close>

text \<open>
  \<^verbatim>\<open>Math.PI\<close> is the double nearest to \<open>\<pi>\<close>, \<^verbatim>\<open>0x1.921fb54442d18p+1\<close>. \<^verbatim>\<open>Math.floor\<close> is exact.
  The language fixes the values of \<^verbatim>\<open>Math.sin\<close>, \<^verbatim>\<open>Math.cos\<close>, \<^verbatim>\<open>Math.tan\<close>, \<^verbatim>\<open>Math.log\<close>,
  \<^verbatim>\<open>Math.sqrt\<close>, \<^verbatim>\<open>Math.atan2\<close> and \<^verbatim>\<open>Math.pow\<close> at special arguments only (the tangent of 0
  is 0, the logarithm of 0 is \<open>-\<infinity>\<close>, that of a negative number and the square root of one
  are \<^verbatim>\<open>NaN\<close>) and leaves the other values to the implementation as approximations; the
  model takes the double nearest to the exact value.
\<close>

definition Math_PI :: real where
  "Math_PI = 884279719003555 / 281474976710656"

definition Math_floor :: "number \<Rightarrow> int option" where
  "Math_floor a = map_option floor a"

definition Math_sin :: "number \<Rightarrow> number" where
  "Math_sin a = Option.bind a (\<lambda>x. rnd (sin x))"

definition Math_cos :: "number \<Rightarrow> number" where
  "Math_cos a = Option.bind a (\<lambda>x. rnd (cos x))"

definition Math_tan :: "number \<Rightarrow> number" where
  "Math_tan a = Option.bind a (\<lambda>x. rnd (tan x))"

definition Math_log :: "number \<Rightarrow> number" where
  "Math_log a = Option.bind a (\<lambda>v. if v \<le> 0 then None else rnd (ln v))"

definition Math_sqrt :: "number \<Rightarrow> number" where
  "Math_sqrt a = Option.bind a (\<lambda>v. if v < 0 then None else rnd (sqrt v))"

text \<open>\<^verbatim>\<open>Math.pow(2, z)\<close> for a finite \<open>z\<close>.\<close>

definition Math_pow2 :: "real \<Rightarrow> number" where
  "Math_pow2 z = rnd (2 powr z)"

text \<open>The angle of the point \<open>(x, y)\<close>, between \<open>-\<pi>\<close> and \<open>\<pi>\<close>; 0 at the origin.\<close>

definition atan2 :: "real \<Rightarrow> real \<Rightarrow> real" where
  "atan2 y x =
     (if 0 < x then arctan (y / x)
      else if x < 0 then (if 0 \<le> y then arctan (y / x) + pi else arctan (y / x) - pi)
      else if 0 < y then pi / 2
      else if y < 0 then - (pi / 2)
      else 0)"

definition Math_atan2 :: "number \<Rightarrow> number \<Rightarrow> number" where
  "Math_atan2 a b = Option.bind a (\<lambda>y. Option.bind b (\<lambda>x. rnd (atan2 y x)))"

subsection \<open>\<^verbatim>\<open>config.js\<close>\<close>

definition ZOOM_LEVEL :: real where "ZOOM_LEVEL = 11"
definition TILE_SIZE :: real where "TILE_SIZE = 1000"
definition INITIAL_SKY_HEIGHT :: real where "INITIAL_SKY_HEIGHT = 200"

subsection \<open>\<^verbatim>\<open>utils.js\<close>: \<^verbatim>\<open>calculateDistance\<close> and \<^verbatim>\<open>latLonToTile\<close>\<close>

text \<open>
  The arguments of both functions are finite doubles. The result of \<^verbatim>\<open>calculateDistance\<close> is
  a finite double or \<^verbatim>\<open>NaN\<close>.
\<close>

definition calculateDistance :: "real \<Rightarrow> real \<Rightarrow> real \<Rightarrow> real \<Rightarrow> number" where
  "calculateDistance lat1 lon1 lat2 lon2 =
     (let R = Some 6371000;
          phi1 = fdiv (fmul (Some lat1) (Some Math_PI)) 180;
          phi2 = fdiv (fmul (Some lat2) (Some Math_PI)) 180;
          dphi = fdiv (fmul (fsub (Some lat2) (Some lat1)) (Some Math_PI)) 180;
          dlam = fdiv (fmul (fsub (Some lon2) (Some lon1)) (Some Math_PI)) 180;
          a = fadd (fmul (Math_sin (fdiv dphi 2)) (Math_sin (fdiv dphi 2)))
                (fmul (fmul (fmul (Math_cos phi1) (Math_cos phi2)) (Math_sin (fdiv dlam 2)))
                   (Math_sin (fdiv dlam 2)));
          c = fmul (Some 2) (Math_atan2 (Math_sqrt a) (Math_sqrt (fsub (Some 1) a)))
      in fmul R c)"

text \<open>
  The result object \<^verbatim>\<open>{ tileX, tileY, pixelX, pixelY }\<close>: each field is an integer, or \<open>None\<close>
  where the code computes an infinity or \<^verbatim>\<open>NaN\<close>.
\<close>

record tile_coords =
  tileX :: "int option"
  tileY :: "int option"
  pixelX :: "int option"
  pixelY :: "int option"

definition latLonToTile :: "real \<Rightarrow> real \<Rightarrow> real \<Rightarrow> real \<Rightarrow> tile_coords" where
  "latLonToTile lat lon zoom tileSize =
     (let x = fdiv (fadd (Some lon) (Some 180)) 360;
          y = fdiv (fsub (Some 1)
                (fdiv (Math_log (Math_tan
                   (fadd (fdiv (Some Math_PI) 4)
                      (fdiv (fdiv (fmul (Some lat) (Some Math_PI)) 180) 2)))) Math_PI)) 2;
          n = Math_pow2 zoom;
          tX = Math_floor (fmul x n);
          tY = Math_floor (fmul y n);
          pX = Math_floor (fmul (fsub (fmul x n) (map_option of_int tX)) (Some tileSize));
          pY = Math_floor (fmul (fsub (fmul y n) (map_option of_int tY)) (Some tileSize))
      in \<lparr>tileX = tX, tileY = tY, pixelX = pX, pixelY = pY\<rparr>)"

text \<open>
  The projection as the specification words it, in the arithmetic of the program: the
  normalised longitude and latitude of the spherical Mercator projection.
\<close>

definition spec_x :: "real \<Rightarrow> number" where
  "spec_x lon = fdiv (fadd (Some lon) (Some 180)) 360"

definition spec_y :: "real \<Rightarrow> number" where
  "spec_y lat =
     fdiv (fsub (Some 1)
       (fdiv (Math_log (Math_tan (fadd (fdiv (Some Math_PI) 4)
          (fdiv (fmul (Some lat) (Some Math_PI)) 360)))) Math_PI)) 2"

text \<open>The same two quantities as real numbers, with no rounding.\<close>

definition exact_x :: "real \<Rightarrow> real" where
  "exact_x lon = (lon + 180) / 360"

definition exact_y :: "real \<Rightarrow> real" where
  "exact_y lat = (1 - ln (tan (pi / 4 + lat * pi / 360)) / pi) / 2"


subsection \<open>\<^verbatim>\<open>tiles.js\<close>: the scene objects and the module state\<close>

text \<open>
  The three.js objects the module creates live in an explicit store: a material, a plane
  (mesh), a group is the index at which it was allocated. A plane owns its geometry and
  refers to its material; a group lists its children; the scene lists the groups added to
  it. A texture is identified by the tile it was fetched for.
\<close>

record material =
  opacity :: real
  map_texture :: "(int option \<times> int option) option"
  transparent :: bool
  material_disposed :: bool

record plane =
  position_x :: "real option"
  position_y :: real
  position_z :: "real option"
  geometry_disposed :: bool
  plane_material :: nat

text \<open>A value of the \<^verbatim>\<open>tileGrid\<close> map: \<^verbatim>\<open>{ plane, material, tileX, tileY, relativeX, relativeY }\<close>.\<close>

record tile_cell =
  cell_plane :: nat
  cell_material :: nat
  cell_tileX :: "int option"
  cell_tileY :: "int option"
  relativeX :: int
  relativeY :: int

text \<open>
  The key \<^verbatim>\<open>`${tileX},${tileY}`\<close>: two keys are the same string exactly when the two numbers
  are the same, and the non-finite \<^verbatim>\<open>tileX\<close> of one grid all print the same, as do its
  non-finite \<^verbatim>\<open>tileY\<close>.
\<close>

type_synonym tile_key = "int option \<times> int option"

record tiles_state =
  SKY_HEIGHT :: real
  tileGrid :: "(tile_key \<times> tile_cell) list"
  centerTile :: "int option \<times> int option"
  currentPixelOffsets :: "int option \<times> int option"
  tileGroup :: "nat option"
  getOpacityCallback :: "real option"
  materials :: "material list"
  planes :: "plane list"
  groups :: "nat list list"
  scene :: "nat list"

text \<open>The module state when the module is loaded, with an empty scene.\<close>

definition init_tiles :: tiles_state where
  "init_tiles = \<lparr>SKY_HEIGHT = INITIAL_SKY_HEIGHT, tileGrid = [], centerTile = (Some 0, Some 0),
     currentPixelOffsets = (Some 0, Some 0), tileGroup = None, getOpacityCallback = None,
     materials = [], planes = [], groups = [], scene = []\<rparr>"

text \<open>The material \<^verbatim>\<open>createAlphaFogMaterial\<close> constructs: white, transparent, opacity 0, no map.\<close>

definition alphaFogMaterial :: material where
  "alphaFogMaterial =
     \<lparr>opacity = 0, map_texture = None, transparent = True, material_disposed = False\<rparr>"

definition createAlphaFogMaterial :: "tiles_state \<Rightarrow> tiles_state \<times> nat" where
  "createAlphaFogMaterial s =
     (s\<lparr>materials := materials s @ [alphaFogMaterial]\<rparr>, length (materials s))"

definition calculateTilePosition :: "tiles_state \<Rightarrow> int \<Rightarrow> int \<Rightarrow> real option \<times> real option" where
  "calculateTilePosition s relX relY =
     (if relX = 0 \<and> relY = 0 then
        (map_option (\<lambda>px. TILE_SIZE / 2 - of_int px) (fst (currentPixelOffsets s)),
         map_option (\<lambda>py. TILE_SIZE / 2 - of_int py) (snd (currentPixelOffsets s)))
      else
        (let centerOffsetX = map_option (\<lambda>px. TILE_SIZE / 2 - of_int px)
                               (fst (currentPixelOffsets s));
             centerOffsetZ = map_option (\<lambda>py. TILE_SIZE / 2 - of_int py)
                               (snd (currentPixelOffsets s))
         in (map_option (\<lambda>c. c + of_int relX * TILE_SIZE) centerOffsetX,
             map_option (\<lambda>c. c - of_int relY * TILE_SIZE) centerOffsetZ)))"

text \<open>\<^verbatim>\<open>createTilePlane\<close> returns \<^verbatim>\<open>{ plane, material }\<close>: here the state and the two indices.\<close>

definition createTilePlane ::
  "tiles_state \<Rightarrow> int option \<Rightarrow> int option \<Rightarrow> int \<Rightarrow> int \<Rightarrow> tiles_state \<times> nat \<times> nat" where
  "createTilePlane s tX tY relX relY =
     (let (s1, planeMat) = createAlphaFogMaterial s;
          pos = calculateTilePosition s1 relX relY;
          pid = length (planes s1);
          s2 = s1\<lparr>planes := planes s1 @
                 [\<lparr>position_x = fst pos, position_y = SKY_HEIGHT s1, position_z = snd pos,
                   geometry_disposed = False, plane_material = planeMat\<rparr>]\<rparr>;
          (s3, g) = (case tileGroup s2 of
                       Some g \<Rightarrow> (s2, g)
                     | None \<Rightarrow> (s2\<lparr>tileGroup := Some (length (groups s2)),
                                    groups := groups s2 @ [[]],
                                    scene := scene s2 @ [length (groups s2)]\<rparr>,
                                length (groups s2)));
          s4 = s3\<lparr>groups := (groups s3)[g := groups s3 ! g @ [pid]]\<rparr>
      in (s4, pid, planeMat))"

text \<open>The body of the two nested loops of \<^verbatim>\<open>buildTileGrid\<close>, for one \<open>(dx, dy)\<close>.\<close>

definition buildTileGrid_cell ::
  "int option \<Rightarrow> int option \<Rightarrow> int \<times> int \<Rightarrow> tiles_state \<Rightarrow> tiles_state" where
  "buildTileGrid_cell centerTileX centerTileY d s =
     (let dx = fst d; dy = snd d;
          tX = map_option (\<lambda>c. c + dx) centerTileX;
          tY = map_option (\<lambda>c. c + dy) centerTileY;
          tileKey = (tX, tY);
          (s1, pid, mat) = createTilePlane s tX tY dx dy
      in s1\<lparr>tileGrid := AList.update tileKey
            \<lparr>cell_plane = pid, cell_material = mat, cell_tileX = tX, cell_tileY = tY,
             relativeX = dx, relativeY = dy\<rparr> (tileGrid s1)\<rparr>)"

text \<open>The pairs the loops run through, \<open>dx\<close> outside and \<open>dy\<close> inside, each from -1 to 1.\<close>

definition grid_offsets :: "(int \<times> int) list" where
  "grid_offsets = concat (map (\<lambda>dx. map (\<lambda>dy. (dx, dy)) [- 1, 0, 1]) [- 1, 0, 1])"

definition buildTileGrid :: "int option \<Rightarrow> int option \<Rightarrow> tiles_state \<Rightarrow> tiles_state" where
  "buildTileGrid centerTileX centerTileY s =
     fold (buildTileGrid_cell centerTileX centerTileY) grid_offsets
       (s\<lparr>centerTile := (centerTileX, centerTileY)\<rparr>)"

text \<open>
  The variables one call of \<^verbatim>\<open>loadTileGridTextures\<close> closes over and shares between the
  callbacks of its fetches.
\<close>

record rebuild =
  oldTileGrid :: "(tile_key \<times> tile_cell) list"
  oldTileGroup :: "nat option"
  loadedCount :: nat
  totalTiles :: nat
  newTileMaterials :: "nat list"

text \<open>A fetch issued by \<^verbatim>\<open>loadSingleTileTexture\<close>: the tile and the material it will texture.\<close>

type_synonym fetch = "int option \<times> int option \<times> nat"

text \<open>
  The synchronous part of \<^verbatim>\<open>loadTileGridTextures\<close>: it returns the new state, the closure
  variables and the fetches issued, in the order of the \<^verbatim>\<open>forEach\<close>. No callback has run yet.
\<close>

definition loadTileGridTextures ::
  "real \<Rightarrow> real \<Rightarrow> tiles_state \<Rightarrow> tiles_state \<times> rebuild \<times> fetch list" where
  "loadTileGridTextures lat lon s =
     (let r = latLonToTile lat lon ZOOM_LEVEL TILE_SIZE;
          s1 = s\<lparr>currentPixelOffsets := (pixelX r, pixelY r)\<rparr>;
          og = tileGrid s1;
          ogr = tileGroup s1;
          s2 = s1\<lparr>tileGrid := [], tileGroup := None\<rparr>;
          s3 = buildTileGrid (tileX r) (tileY r) s2
      in (s3,
          \<lparr>oldTileGrid = og, oldTileGroup = ogr, loadedCount = 0,
           totalTiles = length (tileGrid s3),
           newTileMaterials = map (\<lambda>kc. cell_material (snd kc)) (tileGrid s3)\<rparr>,
          map (\<lambda>kc. (cell_tileX (snd kc), cell_tileY (snd kc), cell_material (snd kc)))
            (tileGrid s3)))"

text \<open>
  One turn of \<^verbatim>\<open>oldTileGrid.forEach\<close> in the swap: the plane leaves the old group (if there
  is one), its geometry and its material are disposed.
\<close>

definition dispose_plane :: "nat option \<Rightarrow> nat \<Rightarrow> tiles_state \<Rightarrow> tiles_state" where
  "dispose_plane grp pid s =
     (let s1 = (case grp of
                  Some g \<Rightarrow> s\<lparr>groups := (groups s)[g := remove1 pid (groups s ! g)]\<rparr>
                | None \<Rightarrow> s);
          s2 = s1\<lparr>planes := (planes s1)[pid := (planes s1 ! pid)\<lparr>geometry_disposed := True\<rparr>]\<rparr>;
          m = plane_material (planes s2 ! pid)
      in s2\<lparr>materials := (materials s2)[m := (materials s2 ! m)\<lparr>material_disposed := True\<rparr>]\<rparr>)"

definition set_opacity :: "real \<Rightarrow> nat \<Rightarrow> tiles_state \<Rightarrow> tiles_state" where
  "set_opacity v m s = s\<lparr>materials := (materials s)[m := (materials s ! m)\<lparr>opacity := v\<rparr>]\<rparr>"

text \<open>
  The block of the callback that runs once the count is reached: the old cells are
  disposed, the old group leaves the scene, the new materials get the current opacity.
\<close>

abbreviation dispose_all ::
  "nat option \<Rightarrow> (tile_key \<times> tile_cell) list \<Rightarrow> tiles_state \<Rightarrow> tiles_state" where
  "dispose_all grp cells s \<equiv> fold (\<lambda>kc. dispose_plane grp (cell_plane (snd kc))) cells s"

abbreviation opacity_all :: "real \<Rightarrow> nat list \<Rightarrow> tiles_state \<Rightarrow> tiles_state" where
  "opacity_all v ms s \<equiv> fold (set_opacity v) ms s"

definition atomic_swap :: "rebuild \<Rightarrow> tiles_state \<Rightarrow> tiles_state" where
  "atomic_swap rb s =
     (let s1 = dispose_all (oldTileGroup rb) (oldTileGrid rb) s;
          s2 = (case oldTileGroup rb of
                  Some g \<Rightarrow> s1\<lparr>scene := remove1 g (scene s1)\<rparr>
                | None \<Rightarrow> s1);
          currentOpacity = (case getOpacityCallback s2 of Some v \<Rightarrow> v | None \<Rightarrow> 0.5)
      in opacity_all currentOpacity (newTileMaterials rb) s2)"

text \<open>The callback \<^verbatim>\<open>loadTileGridTextures\<close> passes to every fetch.\<close>

definition onLoadCallback :: "tiles_state \<times> rebuild \<Rightarrow> tiles_state \<times> rebuild" where
  "onLoadCallback sr =
     (let s = fst sr;
          rb = (snd sr)\<lparr>loadedCount := loadedCount (snd sr) + 1\<rparr>
      in if loadedCount rb = totalTiles rb then (atomic_swap rb s, rb) else (s, rb))"

text \<open>
  A fetch settles once, with the texture or with an error; both handlers of
  \<^verbatim>\<open>loadSingleTileTexture\<close> end by calling the callback, and only the first touches the
  material (its map, never its opacity).
\<close>

datatype fetch_outcome = Loaded | Failed

text \<open>What the success handler does to the material before it calls the callback.\<close>

definition texture_loaded :: "fetch \<Rightarrow> tiles_state \<Rightarrow> tiles_state" where
  "texture_loaded f s =
     (let m = snd (snd f)
      in s\<lparr>materials := (materials s)[m := (materials s ! m)
             \<lparr>map_texture := Some (fst f, fst (snd f)), transparent := True\<rparr>]\<rparr>)"

definition loadSingleTileTexture_settled ::
  "fetch \<Rightarrow> fetch_outcome \<Rightarrow> tiles_state \<times> rebuild \<Rightarrow> tiles_state \<times> rebuild" where
  "loadSingleTileTexture_settled f outcome sr =
     (case outcome of
        Loaded \<Rightarrow> onLoadCallback (texture_loaded f (fst sr), snd sr)
      | Failed \<Rightarrow> onLoadCallback sr)"

text \<open>
  The fetches of one rebuild settle in any order: an event names a fetch by its position
  in the list of fetches issued, and says how it settled.
\<close>

fun settle_all ::
  "fetch list \<Rightarrow> (nat \<times> fetch_outcome) list \<Rightarrow> tiles_state \<times> rebuild \<Rightarrow> tiles_state \<times> rebuild" where
  "settle_all fs [] sr = sr"
| "settle_all fs (e # evs) sr = settle_all fs evs (loadSingleTileTexture_settled (fs ! fst e) (snd e) sr)"

text \<open>
  Every index stored in the module state names an allocated object, a group lists a child
  once and the scene lists a group once (three.js detaches an object from its parent before
  it adds it).
\<close>

definition wf_tiles :: "tiles_state \<Rightarrow> bool" where
  "wf_tiles s \<longleftrightarrow>
     list_all (\<lambda>kc. cell_plane (snd kc) < length (planes s) \<and>
                    plane_material (planes s ! cell_plane (snd kc)) < length (materials s))
       (tileGrid s) \<and>
     (case tileGroup s of None \<Rightarrow> True | Some g \<Rightarrow> g < length (groups s) \<and> distinct (groups s ! g)) \<and>
     distinct (scene s) \<and> list_all (\<lambda>g. g < length (groups s)) (scene s)"

text \<open>What the claims observe of a state.\<close>

definition old_objects_untouched :: "tiles_state \<Rightarrow> tiles_state \<Rightarrow> bool" where
  "old_objects_untouched s0 s \<longleftrightarrow>
     take (length (scene s0)) (scene s) = scene s0 \<and>
     take (length (groups s0)) (groups s) = groups s0 \<and>
     take (length (planes s0)) (planes s) = planes s0 \<and>
     take (length (materials s0)) (materials s) = materials s0"

definition cells_opacity :: "tiles_state \<Rightarrow> real \<Rightarrow> bool" where
  "cells_opacity s v \<longleftrightarrow>
     list_all (\<lambda>kc. opacity (materials s ! cell_material (snd kc)) = v) (tileGrid s)"

definition cells_disposed :: "tiles_state \<Rightarrow> (tile_key \<times> tile_cell) list \<Rightarrow> bool" where
  "cells_disposed s cells \<longleftrightarrow>
     list_all (\<lambda>kc. geometry_disposed (planes s ! cell_plane (snd kc)) \<and>
                    material_disposed (materials s ! plane_material (planes s ! cell_plane (snd kc))))
       cells"

definition cells_removed :: "tiles_state \<Rightarrow> nat option \<Rightarrow> (tile_key \<times> tile_cell) list \<Rightarrow> bool" where
  "cells_removed s grp cells \<longleftrightarrow>
     (case grp of
        None \<Rightarrow> True
      | Some g \<Rightarrow> g \<notin> set (scene s) \<and>
                  list_all (\<lambda>kc. cell_plane (snd kc) \<notin> set (groups s ! g)) cells)"

definition currentOpacity :: "tiles_state \<Rightarrow> real" where
  "currentOpacity s = (case getOpacityCallback s of Some v \<Rightarrow> v | None \<Rightarrow> 0.5)"

text \<open>
  Closed forms used in the proofs: the planes and the cells one run of the loops of
  \<^verbatim>\<open>buildTileGrid\<close> allocates, numbered in loop order from the first free indices.
\<close>

definition grid_planes :: "real \<Rightarrow> nat \<Rightarrow> int option \<Rightarrow> int option \<Rightarrow> plane list" where
  "grid_planes sky m0 pxo pyo =
     map (\<lambda>kd. \<lparr>position_x = map_option
                   (\<lambda>px. TILE_SIZE / 2 - of_int px + of_int (fst (snd kd)) * TILE_SIZE) pxo,
                 position_y = sky,
                 position_z = map_option
                   (\<lambda>py. TILE_SIZE / 2 - of_int py - of_int (snd (snd kd)) * TILE_SIZE) pyo,
                 geometry_disposed = False,
                 plane_material = m0 + fst kd\<rparr>)
       (zip [0, 1, 2, 3, 4, 5, 6, 7, 8] grid_offsets)"

definition grid_cells :: "nat \<Rightarrow> nat \<Rightarrow> int option \<Rightarrow> int option \<Rightarrow> (tile_key \<times> tile_cell) list" where
  "grid_cells p0 m0 txo tyo =
     map (\<lambda>kd. ((map_option (\<lambda>c. c + fst (snd kd)) txo, map_option (\<lambda>c. c + snd (snd kd)) tyo),
                \<lparr>cell_plane = p0 + fst kd, cell_material = m0 + fst kd,
                 cell_tileX = map_option (\<lambda>c. c + fst (snd kd)) txo,
                 cell_tileY = map_option (\<lambda>c. c + snd (snd kd)) tyo,
                 relativeX = fst (snd kd), relativeY = snd (snd kd)\<rparr>))
       (zip [0, 1, 2, 3, 4, 5, 6, 7, 8] grid_offsets)"

text \<open>
  The cells that remain in the map when keys collide: a later cell replaces, at its place,
  an earlier one with the same key.
\<close>

definition grid_kept :: "int option \<Rightarrow> int option \<Rightarrow> nat set" where
  "grid_kept txo tyo =
     (case (txo, tyo) of
        (Some tx, Some ty) \<Rightarrow> {0, 1, 2, 3, 4, 5, 6, 7, 8}
      | (Some tx, None) \<Rightarrow> {2, 5, 8}
      | (None, Some ty) \<Rightarrow> {6, 7, 8}
      | (None, None) \<Rightarrow> {8})"

definition start_state ::
  "tiles_state \<Rightarrow> int option \<Rightarrow> int option \<Rightarrow> int option \<Rightarrow> int option \<Rightarrow>
     (tile_key \<times> tile_cell) list \<Rightarrow> tiles_state" where
  "start_state s txo tyo pxo pyo cells =
     s\<lparr>currentPixelOffsets := (pxo, pyo), centerTile := (txo, tyo),
       tileGroup := Some (length (groups s)),
       scene := scene s @ [length (groups s)],
       materials := materials s @ replicate 9 alphaFogMaterial,
       planes := planes s @ grid_planes (SKY_HEIGHT s) (length (materials s)) pxo pyo,
       groups := groups s @ [map (\<lambda>k. length (planes s) + k) [0, 1, 2, 3, 4, 5, 6, 7, 8]],
       tileGrid := cells\<rparr>"

definition start_rebuild :: "tiles_state \<Rightarrow> (tile_key \<times> tile_cell) list \<Rightarrow> rebuild" where
  "start_rebuild s cells =
     \<lparr>oldTileGrid = tileGrid s, oldTileGroup = tileGroup s, loadedCount = 0,
      totalTiles = length cells,
      newTileMaterials = map (\<lambda>kc. cell_material (snd kc)) cells\<rparr>"

definition start_fetches :: "(tile_key \<times> tile_cell) list \<Rightarrow> fetch list" where
  "start_fetches cells =
     map (\<lambda>kc. (cell_tileX (snd kc), cell_tileY (snd kc), cell_material (snd kc))) cells"

text \<open>
  While fetches are pending, a state differs from the state the rebuild started in only in
  the maps (and \<^verbatim>\<open>transparent\<close> flags) of materials numbered from \<open>n0\<close> on.
\<close>

definition only_textures_changed :: "nat \<Rightarrow> tiles_state \<Rightarrow> tiles_state \<Rightarrow> bool" where
  "only_textures_changed n0 s1 s \<longleftrightarrow>
     s\<lparr>materials := materials s1\<rparr> = s1 \<and>
     map opacity (materials s) = map opacity (materials s1) \<and>
     map material_disposed (materials s) = map material_disposed (materials s1) \<and>
     take n0 (materials s) = take n0 (materials s1)"

text \<open>What never changes once the synchronous part of a rebuild has run: the grid and where the planes are.\<close>

definition grid_view ::
  "tiles_state \<Rightarrow> (tile_key \<times> tile_cell) list \<times> (int option \<times> int option) \<times>
     (int option \<times> int option) \<times> (real option \<times> real \<times> real option) list" where
  "grid_view s =
     (tileGrid s, centerTile s, currentPixelOffsets s,
      map (\<lambda>p. (position_x p, position_y p, position_z p)) (planes s))"

text \<open>
  An example run: the module is loaded, the opacity slider stands at 80, the grid is built at
  latitude 0, longitude 0, and its nine fetches settle in some order, two of them with an
  error; then the grid is rebuilt at longitude 90.
\<close>

definition example_events :: "(nat \<times> fetch_outcome) list" where
  "example_events = [(4, Loaded), (0, Loaded), (1, Failed), (2, Loaded), (3, Loaded),
     (8, Loaded), (5, Failed), (6, Loaded), (7, Loaded)]"

definition example_init :: tiles_state where
  "example_init = init_tiles\<lparr>getOpacityCallback := Some (4 / 5)\<rparr>"

definition example_first :: "tiles_state \<times> rebuild" where
  "example_first =
     (let r = loadTileGridTextures 0 0 example_init
      in settle_all (snd (snd r)) example_events (fst r, fst (snd r)))"

definition example_second :: "tiles_state \<times> rebuild \<times> fetch list" where
  "example_second = loadTileGridTextures 0 90 (fst example_first)"

text \<open>A rebuild away from the corner of a tile.\<close>

definition example_offset :: "tiles_state \<times> rebuild" where
  "example_offset =
     (let r = loadTileGridTextures 0 (- 153) example_init
      in settle_all (snd (snd r)) example_events (fst r, fst (snd r)))"

text \<open>A rebuild at the south pole, a latitude the manual input accepts.\<close>

definition example_pole :: "tiles_state \<times> rebuild \<times> fetch list" where
  "example_pole = loadTileGridTextures (- 90) 0 init_tiles"

definition example_pole_done :: "tiles_state \<times> rebuild" where
  "example_pole_done =
     settle_all (snd (snd example_pole)) [(0, Failed), (1, Failed), (2, Failed)]
       (fst example_pole, fst (snd example_pole))"

subsection \<open>\<^verbatim>\<open>controls.js\<close>: the orientation filter\<close>

text \<open>
  The filter is stated over the real numbers: what is proved of it is which formula the code
  evaluates, not how the formula rounds.
\<close>

definition TAU_BASE :: real where "TAU_BASE = 0.03"
definition TAU_SLOW :: real where "TAU_SLOW = 0.12"

text \<open>
  Modelled from the spec: \<^verbatim>\<open>THREE.MathUtils.clamp\<close> and \<^verbatim>\<open>THREE.MathUtils.lerp\<close> belong to the
  three.js library, whose code is not among the sources. The specification's
  ``clamped to \<open>[lo, hi]\<close>'' and ``interpolate between the slow and the base constant using
  \<open>k\<close>'' are the usual \<open>max lo (min hi v)\<close> and \<open>(1 - t) * x + t * y\<close>.
\<close>

definition MathUtils_clamp :: "real \<Rightarrow> real \<Rightarrow> real \<Rightarrow> real" where
  "MathUtils_clamp v lo hi = max lo (min hi v)"

definition MathUtils_lerp :: "real \<Rightarrow> real \<Rightarrow> real \<Rightarrow> real" where
  "MathUtils_lerp x y t = (1 - t) * x + t * y"

text \<open>
  The module state. \<open>'q\<close> is the type of three.js quaternions; \<^verbatim>\<open>controls\<close> is whether the
  \<^verbatim>\<open>DeviceOrientationControls\<close> object exists; \<^verbatim>\<open>orientationProxy\<close> and \<^verbatim>\<open>camera_quaternion\<close>
  are the quaternions of the proxy object and of the camera.
\<close>

record 'q controls_state =
  hasDeviceOrientation :: bool
  controls :: bool
  orientationProxy :: 'q
  smoothQ :: 'q
  orientationInitialized :: bool
  lastT :: real
  camera_quaternion :: 'q

text \<open>
  \<^verbatim>\<open>updateControls(currentTime)\<close>. The quaternion methods \<^verbatim>\<open>dot\<close> and \<^verbatim>\<open>slerp\<close> of three.js are
  parameters; \<open>raw\<close> is the rotation \<^verbatim>\<open>controls.update()\<close> writes into the proxy from the
  sensor. \<^verbatim>\<open>copy\<close> copies a value, so no two of the quaternions are aliased.
\<close>

definition updateControls ::
  "('q \<Rightarrow> 'q \<Rightarrow> real) \<Rightarrow> ('q \<Rightarrow> 'q \<Rightarrow> real \<Rightarrow> 'q) \<Rightarrow> real \<Rightarrow> 'q \<Rightarrow>
     'q controls_state \<Rightarrow> 'q controls_state" where
  "updateControls dot slerp currentTime raw s =
     (let dt = max 0.001 ((currentTime - lastT s) / 1000);
          s1 = s\<lparr>lastT := currentTime\<rparr>
      in if hasDeviceOrientation s1 \<and> controls s1 then
           (let s2 = s1\<lparr>orientationProxy := raw\<rparr>;
                s3 = (if \<not> orientationInitialized s2
                      then s2\<lparr>smoothQ := orientationProxy s2, orientationInitialized := True\<rparr>
                      else s2);
                targetQ = orientationProxy s3;
                d = MathUtils_clamp (dot (smoothQ s3) targetQ) (- 1) 1;
                ang = 2 * arccos \<bar>d\<bar>;
                k = MathUtils_clamp (ang / 0.25) 0 1;
                tau = MathUtils_lerp TAU_SLOW TAU_BASE k;
                alpha = dt / (tau + dt);
                s4 = s3\<lparr>smoothQ := slerp (smoothQ s3) targetQ alpha\<rparr>
            in s4\<lparr>camera_quaternion := smoothQ s4\<rparr>)
         else s1)"

text \<open>
  The filter as the specification words it: the angle between two rotations, and one step
  from the previous smoothed rotation toward the raw sample with the elapsed time \<open>dt\<close>.
\<close>

definition angularDelta :: "('q \<Rightarrow> 'q \<Rightarrow> real) \<Rightarrow> 'q \<Rightarrow> 'q \<Rightarrow> real" where
  "angularDelta dot a b = 2 * arccos \<bar>MathUtils_clamp (dot a b) (- 1) 1\<bar>"

definition spec_filter_step ::
  "('q \<Rightarrow> 'q \<Rightarrow> real) \<Rightarrow> ('q \<Rightarrow> 'q \<Rightarrow> real \<Rightarrow> 'q) \<Rightarrow> real \<Rightarrow> 'q \<Rightarrow> 'q \<Rightarrow> 'q" where
  "spec_filter_step dot slerp dt raw prev =
     (let k = MathUtils_clamp (angularDelta dot prev raw / 0.25) 0 1;
          tau = MathUtils_lerp TAU_SLOW TAU_BASE k;
          alpha = dt / (tau + dt)
      in slerp prev raw alpha)"

text \<open>
  Modelled from the spec: three.js quaternions with \<^verbatim>\<open>Quaternion.dot\<close> and \<^verbatim>\<open>Quaternion.slerp\<close>,
  whose code is not among the sources. The dot product is the sum of the products of the
  four components; ``spherically interpolate from the smoothed rotation toward the raw sample
  by \<open>alpha\<close>'' is the rotation on the shorter great arc from \<open>a\<close> to \<open>b\<close> at the fraction \<open>t\<close> of
  the angle: the target is negated when the dot product is negative, and rotations that
  coincide are left as they are.
\<close>

record quat =
  qx :: real
  qy :: real
  qz :: real
  qw :: real

definition quat_dot :: "quat \<Rightarrow> quat \<Rightarrow> real" where
  "quat_dot a b = qx a * qx b + qy a * qy b + qz a * qz b + qw a * qw b"

definition quat_slerp :: "quat \<Rightarrow> quat \<Rightarrow> real \<Rightarrow> quat" where
  "quat_slerp a b t =
     (let c0 = quat_dot a b;
          sg = (if c0 < 0 then - 1 else 1);
          c = \<bar>c0\<bar>
      in if 1 \<le> c then a
         else
           (let om = arccos c;
                ra = sin ((1 - t) * om) / sin om;
                rb = sg * (sin (t * om) / sin om)
            in \<lparr>qx = ra * qx a + rb * qx b, qy = ra * qy a + rb * qy b,
                qz = ra * qz a + rb * qz b, qw = ra * qw a + rb * qw b\<rparr>))"

text \<open>An example: the device is held at the identity rotation, the filter starts a quarter turn away.\<close>

definition quat_identity :: quat where
  "quat_identity = \<lparr>qx = 0, qy = 0, qz = 0, qw = 1\<rparr>"

definition example_controls :: "quat controls_state" where
  "example_controls =
     \<lparr>hasDeviceOrientation = True, controls = True, orientationProxy = quat_identity,
      smoothQ = \<lparr>qx = 1, qy = 0, qz = 0, qw = 0\<rparr>, orientationInitialized = True,
      lastT = 0, camera_quaternion = quat_identity\<rparr>"

subsection \<open>\<^verbatim>\<open>geolocation.js\<close> and the handlers of \<^verbatim>\<open>ui.js\<close> that set and clear the override\<close>

type_synonym coord = "real \<times> real"

definition FALLBACK :: coord where "FALLBACK = (43.642567, - 79.387054)"
definition GPS_UPDATE_INTERVAL :: real where "GPS_UPDATE_INTERVAL = 25"
definition GPS_DISTANCE_THRESHOLD :: real where "GPS_DISTANCE_THRESHOLD = 15"

text \<open>
  What the browser answers to a position query: \<^verbatim>\<open>navigator.geolocation\<close> does not exist, the
  success callback is called with a position, or the error callback is called.
\<close>

datatype geo_answer = Unavailable | Position coord | PositionError

text \<open>How a promise settles. The executor of \<^verbatim>\<open>getLatLonOnce\<close> is given \<^verbatim>\<open>resolve\<close> only.\<close>

datatype 'a settled = Resolved 'a | Rejected

datatype alert = FallbackLocationAlert | SelectLocationAlert

text \<open>
  The module state of \<^verbatim>\<open>geolocation.js\<close>, the flag \<^verbatim>\<open>started\<close> of \<^verbatim>\<open>ui.js\<close>, and what the
  handlers do to the world: the interval timers that are active (\<^verbatim>\<open>setInterval\<close> hands out a
  new positive handle each time, so a handle is truthy), the alerts shown, and the calls of
  the tile-refresh callback, which \<^verbatim>\<open>main.js\<close> registers when it is loaded.
\<close>

record geo_state =
  gpsOverride :: "coord option"
  currentLocation :: "coord option"
  selectedLocation :: "coord option"
  isLiveTrackingEnabled :: bool
  gpsUpdateInterval :: real
  gpsDistanceThreshold :: real
  gpsTrackingIntervalId :: "nat option"
  lastKnownPosition :: "coord option"
  started :: bool
  timers :: "nat list"
  timer_count :: nat
  alerts :: "alert list"
  tile_refreshes :: "coord list"

definition geo_init :: geo_state where
  "geo_init = \<lparr>gpsOverride = None, currentLocation = None, selectedLocation = None,
     isLiveTrackingEnabled = True, gpsUpdateInterval = GPS_UPDATE_INTERVAL,
     gpsDistanceThreshold = GPS_DISTANCE_THRESHOLD, gpsTrackingIntervalId = None,
     lastKnownPosition = None, started = False, timers = [], timer_count = 0, alerts = [],
     tile_refreshes = []\<rparr>"

definition showFallbackLocationAlert :: "geo_state \<Rightarrow> geo_state" where
  "showFallbackLocationAlert s = s\<lparr>alerts := alerts s @ [FallbackLocationAlert]\<rparr>"

text \<open>\<^verbatim>\<open>getLatLonOnce\<close>: the state once the promise has settled, and how it settled.\<close>

definition getLatLonOnce :: "geo_answer \<Rightarrow> geo_state \<Rightarrow> geo_state \<times> coord settled" where
  "getLatLonOnce answer s =
     (case gpsOverride s of
        Some ov \<Rightarrow> (s, Resolved ov)
      | None \<Rightarrow>
          (case answer of
             Unavailable \<Rightarrow>
               (let s1 = showFallbackLocationAlert s;
                    location = FALLBACK
                in (s1\<lparr>currentLocation := Some location\<rparr>, Resolved location))
           | Position p \<Rightarrow>
               (s\<lparr>currentLocation := Some p, lastKnownPosition := Some p\<rparr>, Resolved p)
           | PositionError \<Rightarrow>
               (let s1 = showFallbackLocationAlert s;
                    location = FALLBACK
                in (s1\<lparr>currentLocation := Some location, lastKnownPosition := Some location\<rparr>,
                    Resolved location))))"

definition stopGPSTracking :: "geo_state \<Rightarrow> geo_state" where
  "stopGPSTracking s =
     (case gpsTrackingIntervalId s of
        Some h \<Rightarrow> s\<lparr>timers := removeAll h (timers s), gpsTrackingIntervalId := None\<rparr>
      | None \<Rightarrow> s)"

definition startGPSTracking :: "geo_state \<Rightarrow> geo_state" where
  "startGPSTracking s =
     (if gpsOverride s \<noteq> None then s
      else
        (let s1 = stopGPSTracking s;
             h = Suc (timer_count s1)
         in s1\<lparr>timers := timers s1 @ [h], timer_count := h, gpsTrackingIntervalId := Some h\<rparr>))"

text \<open>
  \<^verbatim>\<open>refreshLocationAndTiles\<close>: the position is queried and, when the promise resolves, the
  tile-refresh callback is called with it.
\<close>

definition refreshLocationAndTiles :: "geo_answer \<Rightarrow> geo_state \<Rightarrow> geo_state" where
  "refreshLocationAndTiles answer s =
     (case getLatLonOnce answer s of
        (s1, Resolved c) \<Rightarrow> s1\<lparr>tile_refreshes := tile_refreshes s1 @ [c]\<rparr>
      | (s1, Rejected) \<Rightarrow> s1)"

text \<open>
  The callback of the interval timer, up to the position query: the result says whether
  \<^verbatim>\<open>getCurrentPosition\<close> was called. \<open>available\<close> is whether \<^verbatim>\<open>navigator.geolocation\<close> exists.
\<close>

definition trackingTick :: "bool \<Rightarrow> geo_state \<Rightarrow> geo_state \<times> bool" where
  "trackingTick available s =
     (if gpsOverride s \<noteq> None then (stopGPSTracking s, False)
      else if \<not> available then (s, False)
      else (s, True))"

text \<open>
  The two callbacks of that query: \<open>answer\<close> is the answer to it, \<open>answer2\<close> the answer to the
  query \<^verbatim>\<open>refreshLocationAndTiles\<close> makes in turn. A distance that is \<^verbatim>\<open>NaN\<close> is not
  greater than the threshold.
\<close>

definition trackingPosition :: "geo_answer \<Rightarrow> geo_answer \<Rightarrow> geo_state \<Rightarrow> geo_state" where
  "trackingPosition answer answer2 s =
     (case answer of
        Position new \<Rightarrow>
          (case lastKnownPosition s of
             Some l \<Rightarrow>
               (let distance = calculateDistance (fst l) (snd l) (fst new) (snd new)
                in if (case distance of Some d \<Rightarrow> d > gpsDistanceThreshold s | None \<Rightarrow> False)
                   then refreshLocationAndTiles answer2
                          (s\<lparr>lastKnownPosition := Some new, currentLocation := Some new\<rparr>)
                   else s)
           | None \<Rightarrow> s\<lparr>lastKnownPosition := Some new, currentLocation := Some new\<rparr>)
      | _ \<Rightarrow> s)"

text \<open>\<^verbatim>\<open>applySelectedLocation\<close> and \<^verbatim>\<open>useCurrentGPS\<close> of \<^verbatim>\<open>ui.js\<close>, without their writes to the page.\<close>

definition applySelectedLocation :: "geo_answer \<Rightarrow> geo_state \<Rightarrow> geo_state" where
  "applySelectedLocation answer s =
     (case selectedLocation s of
        None \<Rightarrow> s\<lparr>alerts := alerts s @ [SelectLocationAlert]\<rparr>
      | Some sel \<Rightarrow>
          (let s1 = s\<lparr>gpsOverride := Some sel\<rparr>;
               s2 = stopGPSTracking s1;
               s3 = s2\<lparr>isLiveTrackingEnabled := False\<rparr>
           in refreshLocationAndTiles answer s3))"

definition useCurrentGPS :: "geo_answer \<Rightarrow> geo_state \<Rightarrow> geo_state" where
  "useCurrentGPS answer s =
     (let s1 = s\<lparr>gpsOverride := None, selectedLocation := None\<rparr>;
          s2 = s1\<lparr>isLiveTrackingEnabled := True\<rparr>;
          s3 = (if started s2 then startGPSTracking s2 else s2)
      in refreshLocationAndTiles answer s3)"

text \<open>An example: the session has started, tracking runs, and a location is selected on the map.\<close>

definition example_geo :: geo_state where
  "example_geo = (startGPSTracking (geo_init\<lparr>started := True\<rparr>))\<lparr>selectedLocation := Some (10, 20)\<rparr>"
subsection \<open>Partial sums of the series of sine and cosine\<close>

text \<open>
  Used in the proofs to enclose values of the sine and the cosine between rational numbers:
  \<open>alt_horner i n y\<close> is \<open>1 - y/((i+1)(i+2)) * (1 - y/((i+3)(i+4)) * (\<dots>))\<close>, with the factors
  whose first index is below \<open>n\<close>. With \<open>y = x\<^sup>2\<close> it is the partial sum of the cosine series
  for \<open>i = 0\<close> and, times \<open>x\<close>, that of the sine series for \<open>i = 1\<close>.
\<close>

function alt_horner :: "nat \<Rightarrow> nat \<Rightarrow> real \<Rightarrow> real" where
  "alt_horner i n y =
     (if n \<le> i then 0 else 1 - y / (real (i + 1) * real (i + 2)) * alt_horner (i + 2) n y)"
  by pat_completeness auto
termination by (relation "measure (\<lambda>(i, n, y). n - i)") auto

declare alt_horner.simps [simp del]

subsection \<open>Rounding to the nearest double\<close>

lemma round_even_cases: "round_even r = \<lfloor>r\<rfloor> \<or> round_even r = \<lfloor>r\<rfloor> + 1"
  by (simp add: round_even_def Let_def)

lemma round_even_of_int [simp]: "round_even (of_int k) = k"
  by (simp add: round_even_def)

lemma round_even_zero [simp]: "round_even 0 = 0"
  using round_even_of_int [of 0] by simp

lemma round_even_eqI:
  assumes "of_int m - 1 / 2 < r" "r < of_int m + 1 / 2"
  shows "round_even r = m"
proof (cases "of_int m \<le> r")
  case True
  with assms have "\<lfloor>r\<rfloor> = m" by (intro floor_unique) auto
  with assms show ?thesis by (simp add: round_even_def)
next
  case False
  with assms have "\<lfloor>r\<rfloor> = m - 1" by (intro floor_unique) auto
  with assms show ?thesis by (simp add: round_even_def)
qed

lemma round_even_tie_down:
  assumes "r = of_int m + 1 / 2" "even m"
  shows "round_even r = m"
proof -
  from assms have "\<lfloor>r\<rfloor> = m" by (intro floor_unique) auto
  with assms show ?thesis by (simp add: round_even_def)
qed

lemma round_even_tie_up:
  assumes "r = of_int m - 1 / 2" "even m"
  shows "round_even r = m"
proof -
  from assms have "\<lfloor>r\<rfloor> = m - 1" by (intro floor_unique) auto
  with assms show ?thesis by (simp add: round_even_def)
qed

lemma round_even_mono:
  assumes "r \<le> s"
  shows "round_even r \<le> round_even s"
proof (cases "\<lfloor>r\<rfloor> = \<lfloor>s\<rfloor>")
  case True
  with assms show ?thesis by (auto simp: round_even_def Let_def)
next
  case False
  with assms have "\<lfloor>r\<rfloor> < \<lfloor>s\<rfloor>" using floor_mono [OF assms] by linarith
  then have "round_even r \<le> \<lfloor>s\<rfloor>" using round_even_cases [of r] by linarith
  also have "\<dots> \<le> round_even s" using round_even_cases [of s] by linarith
  finally show ?thesis .
qed

lemma round_even_minus: "round_even (- r) = - round_even r"
proof (cases "r = of_int \<lfloor>r\<rfloor>")
  case True
  then obtain k where "r = of_int k" ..
  then show ?thesis using round_even_of_int [of "- k"] by simp
next
  case False
  then have lt: "of_int \<lfloor>r\<rfloor> < r" using of_int_floor_le [of r] by linarith
  have "\<lfloor>- r\<rfloor> = - \<lfloor>r\<rfloor> - 1"
    using lt by (intro floor_unique) (auto, linarith)
  then show ?thesis by (auto simp: round_even_def Let_def)
qed

lemma round_even_near: "\<bar>of_int (round_even r) - r\<bar> \<le> 1 / 2"
proof -
  have "of_int \<lfloor>r\<rfloor> \<le> r" "r < of_int \<lfloor>r\<rfloor> + 1" by linarith+
  then show ?thesis by (auto simp: round_even_def Let_def)
qed


lemma floor_log2_bounds:
  assumes "x \<noteq> 0"
  shows "2 powi \<lfloor>log 2 \<bar>x\<bar>\<rfloor> \<le> \<bar>x\<bar>" "\<bar>x\<bar> < 2 powi (\<lfloor>log 2 \<bar>x\<bar>\<rfloor> + 1)"
proof -
  have "2 powr of_int \<lfloor>log 2 \<bar>x\<bar>\<rfloor> \<le> \<bar>x\<bar> \<and> \<bar>x\<bar> < 2 powr (of_int \<lfloor>log 2 \<bar>x\<bar>\<rfloor> + 1)"
    using floor_log_eq_powr_iff [of "\<bar>x\<bar>" 2 "\<lfloor>log 2 \<bar>x\<bar>\<rfloor>"] assms by simp
  moreover have "(2::real) powr (of_int \<lfloor>log 2 \<bar>x\<bar>\<rfloor> + 1) = 2 powr of_int (\<lfloor>log 2 \<bar>x\<bar>\<rfloor> + 1)" by simp
  ultimately show "2 powi \<lfloor>log 2 \<bar>x\<bar>\<rfloor> \<le> \<bar>x\<bar>" "\<bar>x\<bar> < 2 powi (\<lfloor>log 2 \<bar>x\<bar>\<rfloor> + 1)"
    by (simp_all only: powr_real_of_int' [of 2, simplified])
qed

lemma floor_log2_eqI:
  assumes "2 powi e \<le> \<bar>x\<bar>" "\<bar>x\<bar> < 2 powi (e + 1)"
  shows "\<lfloor>log 2 \<bar>x\<bar>\<rfloor> = e"
proof -
  have "0 < \<bar>x\<bar>" using assms(1) zero_less_power_int [of "2::real" e] by linarith
  moreover have "(2::real) powr (of_int e + 1) = 2 powr of_int (e + 1)" by simp
  ultimately show ?thesis
    using floor_log_eq_powr_iff [of "\<bar>x\<bar>" 2 e] assms
    by (simp only: powr_real_of_int' [of 2, simplified])
qed

lemma pow2_mono: "e \<le> e' \<Longrightarrow> (2::real) powi e \<le> 2 powi e'"
  by (rule power_int_increasing) simp_all

lemma pow2_add: "(2::real) powi (a + b) = 2 powi a * 2 powi b"
  by (rule power_int_add) simp

lemma ulp_exponent_normal:
  assumes "2 powi e \<le> \<bar>x\<bar>" "\<bar>x\<bar> < 2 powi (e + 1)" "- 1022 \<le> e"
  shows "ulp_exponent x = e - 52"
  using floor_log2_eqI [OF assms(1,2)] assms(3) by (simp add: ulp_exponent_def)

lemma ulp_exponent_subnormal:
  assumes "x \<noteq> 0" "\<bar>x\<bar> < 2 powi (- 1022)"
  shows "ulp_exponent x = - 1074"
proof -
  have "\<lfloor>log 2 \<bar>x\<bar>\<rfloor> < - 1022"
  proof (rule ccontr)
    assume "\<not> ?thesis"
    then have "(2::real) powi (- 1022) \<le> 2 powi \<lfloor>log 2 \<bar>x\<bar>\<rfloor>"
      by (intro pow2_mono) simp
    with floor_log2_bounds(1) [OF assms(1)] assms(2) show False by linarith
  qed
  then show ?thesis by (simp add: ulp_exponent_def)
qed

lemma ulp_exponent_minus [simp]: "ulp_exponent (- x) = ulp_exponent x"
  by (simp add: ulp_exponent_def)

lemma ulp_exponent_ge: "- 1074 \<le> ulp_exponent x"
  by (simp add: ulp_exponent_def)

text \<open>The scaled magnitude of a nonzero number lies below \<open>2^53\<close>, and above \<open>2^52\<close> unless subnormal.\<close>

lemma scaled_lt:
  assumes "x \<noteq> 0"
  shows "\<bar>x\<bar> < 2 ^ 53 * 2 powi ulp_exponent x"
proof -
  let ?E = "\<lfloor>log 2 \<bar>x\<bar>\<rfloor>"
  have "\<bar>x\<bar> < 2 powi (?E + 1)" by (rule floor_log2_bounds(2) [OF assms])
  also have "\<dots> \<le> 2 powi (53 + ulp_exponent x)" by (intro pow2_mono) (simp add: ulp_exponent_def)
  also have "\<dots> = (2::real) ^ 53 * 2 powi ulp_exponent x" by (simp only: pow2_add power_int_numeral)
  finally show ?thesis .
qed

lemma scaled_ge:
  assumes "x \<noteq> 0" "- 1074 < ulp_exponent x"
  shows "2 ^ 52 * 2 powi ulp_exponent x \<le> \<bar>x\<bar>"
proof -
  let ?E = "\<lfloor>log 2 \<bar>x\<bar>\<rfloor>"
  from assms(2) have E: "?E = 52 + ulp_exponent x" by (auto simp: ulp_exponent_def max_def split: if_splits)
  have "(2::real) ^ 52 * 2 powi ulp_exponent x = 2 powi (52 + ulp_exponent x)" by (simp only: pow2_add power_int_numeral)
  also have "\<dots> \<le> \<bar>x\<bar>" using floor_log2_bounds(1) [OF assms(1)] by (simp only: E)
  finally show ?thesis .
qed

lemma nearest_evalI:
  assumes q: "q = 2 powi u" and u: "- 1074 \<le> u"
    and x: "(2 ^ 52 * q \<le> \<bar>x\<bar> \<and> \<bar>x\<bar> < 2 ^ 53 * q) \<or> (u = - 1074 \<and> x \<noteq> 0 \<and> \<bar>x\<bar> < 2 ^ 52 * q)"
    and m: "round_even (x / q) = m"
  shows "nearest x = of_int m * q"
proof -
  have qpos: "0 < q" by (simp add: q)
  have ue: "ulp_exponent x = u"
  using x proof
    assume a: "2 ^ 52 * q \<le> \<bar>x\<bar> \<and> \<bar>x\<bar> < 2 ^ 53 * q"
    have "2 ^ 52 * q = 2 powi (52 + u)" "2 ^ 53 * q = 2 powi (52 + u + 1)"
      unfolding q by (simp_all only: pow2_add power_int_numeral power_int_1_right) simp
    with a have "2 powi (52 + u) \<le> \<bar>x\<bar>" "\<bar>x\<bar> < 2 powi (52 + u + 1)" by simp_all
    from ulp_exponent_normal [OF this] u show ?thesis by simp
  next
    assume a: "u = - 1074 \<and> x \<noteq> 0 \<and> \<bar>x\<bar> < 2 ^ 52 * q"
    have "2 ^ 52 * q = 2 powi (52 + u)" unfolding q by (simp only: pow2_add power_int_numeral)
    also have "\<dots> = 2 powi (- 1022)" using a by simp
    finally have "\<bar>x\<bar> < 2 powi (- 1022)" using a by simp
    from ulp_exponent_subnormal [OF _ this] a show ?thesis by simp
  qed
  have "x \<noteq> 0" using x qpos by auto
  then show ?thesis using m by (simp add: nearest_def ue Let_def flip: q)
qed

lemma rnd_evalI:
  assumes q: "q = 2 powi u" and u: "- 1074 \<le> u"
    and x: "(2 ^ 52 * q \<le> \<bar>x\<bar> \<and> \<bar>x\<bar> < 2 ^ 53 * q) \<or> (u = - 1074 \<and> x \<noteq> 0 \<and> \<bar>x\<bar> < 2 ^ 52 * q)"
    and m: "round_even (x / q) = m" and fin: "\<bar>of_int m * q\<bar> < 2 ^ 1024"
  shows "rnd x = Some (of_int m * q)"
  using nearest_evalI [OF q u x m] fin by (simp add: rnd_def)

lemma nearest_0 [simp]: "nearest 0 = 0"
  by (simp add: nearest_def)

lemma rnd_0 [simp]: "rnd 0 = Some 0"
  by (simp add: rnd_def)

lemma is_double_0 [simp]: "is_double 0"
  by (simp add: is_double_def)

lemma nearest_minus: "nearest (- x) = - nearest x"
  by (simp add: nearest_def Let_def round_even_minus)

lemma rnd_minus: "rnd (- x) = map_option uminus (rnd x)"
  by (simp add: rnd_def nearest_minus)

lemma is_double_minus [simp]: "is_double (- x) \<longleftrightarrow> is_double x"
  by (auto simp: is_double_def rnd_minus)

lemma is_double_iff: "is_double x \<longleftrightarrow> nearest x = x \<and> \<bar>x\<bar> < 2 ^ 1024"
  by (auto simp: is_double_def rnd_def)

lemma rnd_Some_iff: "rnd x = Some y \<longleftrightarrow> nearest x = y \<and> \<bar>y\<bar> < 2 ^ 1024"
  by (auto simp: rnd_def)

text \<open>A double is an integer multiple of the unit in the last place of any number it is not smaller than in magnitude.\<close>

lemma multiple_of_finer:
  assumes "u \<le> ub"
  shows "\<exists>k::int. of_int mb * (2::real) powi ub = of_int k * 2 powi u"
proof -
  have "(2::real) powi ub = 2 powi (ub - u) * 2 powi u" by (simp flip: pow2_add)
  also have "(2::real) powi (ub - u) = of_int (2 ^ nat (ub - u))"
    using assms by (simp add: power_int_def)
  finally have "of_int mb * (2::real) powi ub = of_int (mb * 2 ^ nat (ub - u)) * 2 powi u"
    by simp
  then show ?thesis ..
qed

lemma nearest_le:
  assumes b: "nearest b = b" and le: "x \<le> b"
  shows "nearest x \<le> b"
proof (cases "x = 0")
  case True
  with le show ?thesis by simp
next
  case x0: False
  let ?u = "ulp_exponent x" and ?q = "2 powi ulp_exponent x :: real"
  have qpos: "0 < ?q" by simp
  have nx: "nearest x = of_int (round_even (x / ?q)) * ?q"
    using x0 by (simp add: nearest_def Let_def)
  show ?thesis
  proof (cases "b = 0")
    case True
    with le have "x / ?q \<le> 0" by (simp add: divide_le_0_iff)
    from round_even_mono [OF this] have "round_even (x / ?q) \<le> 0" by simp
    then have "of_int (round_even (x / ?q)) * ?q \<le> 0"
      by (simp add: mult_le_0_iff)
    with True nx show ?thesis by simp
  next
    case b0: False
    let ?ub = "ulp_exponent b"
    from b b0 have brep: "b = of_int (round_even (b / 2 powi ?ub)) * 2 powi ?ub"
      by (simp add: nearest_def Let_def)
    show ?thesis
    proof (cases "?u \<le> ?ub")
      case True
      from multiple_of_finer [OF True] brep obtain k :: int where k: "b = of_int k * ?q" by metis
      from le have "x / ?q \<le> b / ?q" by (simp add: divide_right_mono)
      also have "b / ?q = of_int k" using k by simp
      finally have "round_even (x / ?q) \<le> k" using round_even_mono [of "x / ?q" "of_int k"] by simp
      then have "of_int (round_even (x / ?q)) * ?q \<le> of_int k * ?q" by (simp add: mult_right_mono)
      with nx k show ?thesis by simp
    next
      case False
      then have lt: "?ub < ?u" by simp
      then have unorm: "- 1074 < ?u" using ulp_exponent_ge [of b] by linarith
      have "\<bar>b\<bar> < 2 ^ 53 * 2 powi ?ub" by (rule scaled_lt [OF b0])
      also have "\<dots> = 2 powi (53 + ?ub)" by (simp only: pow2_add power_int_numeral)
      also have "\<dots> \<le> 2 powi (52 + ?u)" using lt by (intro pow2_mono) simp
      also have "\<dots> = 2 ^ 52 * ?q" by (simp only: pow2_add power_int_numeral)
      finally have bl: "\<bar>b\<bar> < 2 ^ 52 * ?q" .
      have xl: "2 ^ 52 * ?q \<le> \<bar>x\<bar>" by (rule scaled_ge [OF x0 unorm])
      have xneg: "x < 0" using bl xl le by linarith
      then have "x \<le> - (2 ^ 52 * ?q)" using xl by simp
      then have "x / ?q \<le> - (2 ^ 52)" using qpos by (simp add: field_simps)
      from round_even_mono [OF this] have "round_even (x / ?q) \<le> - (2 ^ 52)"
        using round_even_of_int [of "- (2 ^ 52)"] by simp
      then have "of_int (round_even (x / ?q)) * ?q \<le> of_int (- (2 ^ 52)) * ?q"
        by (intro mult_right_mono) (simp_all del: of_int_minus)
      then have "nearest x \<le> - (2 ^ 52 * ?q)" using nx by simp
      with bl show ?thesis by linarith
    qed
  qed
qed

lemma nearest_ge:
  assumes a: "nearest a = a" and le: "a \<le> x"
  shows "a \<le> nearest x"
  using nearest_le [of "- a" "- x"] a le by (simp add: nearest_minus)

lemma rnd_bracket:
  assumes "is_double a" "is_double b" "a \<le> x" "x \<le> b"
  shows "\<exists>y. rnd x = Some y \<and> a \<le> y \<and> y \<le> b"
proof -
  from assms have 1: "nearest x \<le> b" and 2: "a \<le> nearest x"
    by (simp_all add: is_double_iff nearest_le nearest_ge)
  moreover from assms have "\<bar>a\<bar> < 2 ^ 1024" "\<bar>b\<bar> < 2 ^ 1024" by (simp_all add: is_double_iff)
  ultimately have "\<bar>nearest x\<bar> < 2 ^ 1024" by linarith
  with 1 2 show ?thesis by (simp add: rnd_def)
qed

lemma rnd_exact: "is_double x \<Longrightarrow> rnd x = Some x"
  by (simp add: is_double_def)

lemma nearest_idem: "nearest (nearest x) = nearest x"
proof (cases "x = 0")
  case True
  then show ?thesis by simp
next
  case x0: False
  let ?u = "ulp_exponent x" and ?q = "2 powi ulp_exponent x :: real"
  let ?m = "round_even (x / ?q)"
  have qpos: "0 < ?q" by simp
  have nx: "nearest x = of_int ?m * ?q" using x0 by (simp add: nearest_def Let_def)
  show ?thesis
  proof (cases "?m = 0")
    case True
    with nx show ?thesis by simp
  next
    case m0: False
    define y where "y = nearest x"
    have ny: "y = of_int ?m * ?q" by (simp only: y_def nx)
    have y0: "y \<noteq> 0" using ny m0 by simp
    have le: "?u \<le> ulp_exponent y"
    proof (cases "- 1074 < ?u")
      case False
      then show ?thesis using ulp_exponent_ge [of y] by linarith
    next
      case True
      have xl: "2 ^ 52 * ?q \<le> \<bar>x\<bar>" by (rule scaled_ge [OF x0 True])
      have "2 ^ 52 \<le> \<bar>x / ?q\<bar>" using xl qpos by (simp add: field_simps)
      then have "2 ^ 52 \<le> x / ?q \<or> x / ?q \<le> - (2 ^ 52)" by linarith
      then have "2 ^ 52 \<le> ?m \<or> ?m \<le> - (2 ^ 52)"
        using round_even_mono [of "2 ^ 52" "x / ?q"] round_even_mono [of "x / ?q" "- (2 ^ 52)"]
          round_even_of_int [of "2 ^ 52"] round_even_of_int [of "- (2 ^ 52)"]
        by auto
      then have "2 ^ 52 \<le> \<bar>of_int ?m :: real\<bar>" by (auto simp: abs_if simp flip: of_int_abs)
      then have "2 ^ 52 * ?q \<le> \<bar>y\<bar>" by (simp add: ny abs_mult mult_right_mono)
      then have yl: "2 powi (52 + ?u) \<le> \<bar>y\<bar>" by (simp only: pow2_add power_int_numeral)
      have "52 + ?u \<le> \<lfloor>log 2 \<bar>y\<bar>\<rfloor>"
      proof (rule ccontr)
        assume "\<not> ?thesis"
        then have "\<lfloor>log 2 \<bar>y\<bar>\<rfloor> + 1 \<le> 52 + ?u" by simp
        from pow2_mono [OF this] floor_log2_bounds(2) [OF y0] yl show False by linarith
      qed
      then show ?thesis by (simp add: ulp_exponent_def)
    qed
    let ?uy = "ulp_exponent y" and ?qy = "2 powi ulp_exponent y :: real"
    have "\<bar>x / ?q\<bar> \<le> 2 ^ 53" using scaled_lt [OF x0] qpos by (simp add: field_simps)
    then have "- (2 ^ 53) \<le> x / ?q" "x / ?q \<le> 2 ^ 53" by linarith+
    then have mb: "- (2 ^ 53) \<le> ?m" "?m \<le> 2 ^ 53"
      using round_even_mono [of "x / ?q" "2 ^ 53"] round_even_mono [of "- (2 ^ 53)" "x / ?q"]
          round_even_of_int [of "2 ^ 53"] round_even_of_int [of "- (2 ^ 53)"]
      by auto
    have "?uy \<le> ?u + 1"
    proof -
      have "\<bar>of_int ?m :: real\<bar> \<le> 2 ^ 53" using mb by (auto simp: abs_if)  
      then have "\<bar>y\<bar> \<le> 2 ^ 53 * ?q" by (simp add: ny abs_mult mult_right_mono)
      also have "\<dots> = 2 powi (53 + ?u)" by (simp only: pow2_add power_int_numeral)
      finally have yu: "\<bar>y\<bar> \<le> 2 powi (53 + ?u)" .
      have "\<lfloor>log 2 \<bar>y\<bar>\<rfloor> \<le> 53 + ?u"
      proof (rule ccontr)
        assume "\<not> ?thesis"
        then have "53 + ?u + 1 \<le> \<lfloor>log 2 \<bar>y\<bar>\<rfloor>" by simp
        from pow2_mono [OF this] floor_log2_bounds(1) [OF y0] yu
        have "(2::real) powi (53 + ?u + 1) \<le> 2 powi (53 + ?u)" by linarith
        moreover have "(2::real) powi (53 + ?u) < 2 powi (53 + ?u + 1)"
          by (rule power_int_strict_increasing) simp_all
        ultimately show False by linarith
      qed
      then show ?thesis using ulp_exponent_ge [of x] by (simp add: ulp_exponent_def)
    qed
    with le consider "?uy = ?u" | "?uy = ?u + 1" by linarith
    then have "\<exists>k::int. y = of_int k * ?qy"
    proof cases
      case 1
      then show ?thesis using ny by auto
    next
      case 2
      have big: "\<bar>y\<bar> \<ge> 2 ^ 53 * ?q"
      proof -
        have "- 1074 < ?uy" using 2 ulp_exponent_ge [of x] by linarith
        from scaled_ge [OF y0 this] have "2 ^ 52 * 2 powi (?u + 1) \<le> \<bar>y\<bar>" by (simp only: 2)
        then show ?thesis by (simp add: pow2_add)
      qed
      then have "2 ^ 53 \<le> \<bar>of_int ?m :: real\<bar>" using qpos by (simp add: ny abs_mult)
      with mb have mm: "?m = 2 ^ 53 \<or> ?m = - (2 ^ 53)" by (auto simp: abs_if split: if_splits)
      have qy: "?qy = 2 * ?q" by (simp only: 2 pow2_add) simp
      from mm show ?thesis
      proof
        assume "?m = 2 ^ 53"
        then have e: "of_int ?m * ?q = of_int (2 ^ 52) * (2 * ?q)" by simp
        have "y = of_int (2 ^ 52) * ?qy" by (rule trans [OF ny]) (simp only: e qy)
        then show ?thesis ..
      next
        assume "?m = - (2 ^ 53)"
        then have e: "of_int ?m * ?q = of_int (- (2 ^ 52)) * (2 * ?q)" by simp
        have "y = of_int (- (2 ^ 52)) * ?qy" by (rule trans [OF ny]) (simp only: e qy)
        then show ?thesis ..
      qed
    qed
    then obtain k :: int where k: "y = of_int k * ?qy" ..
    define qy :: real where "qy = ?qy"
    have qypos: "0 < qy" by (simp add: qy_def)
    have kq: "y = of_int k * qy" using k by (simp only: qy_def)
    have "nearest y = of_int (round_even (y / qy)) * qy"
      using y0 by (simp add: nearest_def Let_def qy_def)
    also have "y / qy = of_int k" using qypos by (simp add: kq)
    finally have "nearest y = y" by (simp add: kq)
    then show ?thesis by (simp only: y_def)
  qed
qed

lemma rnd_is_double: "rnd x = Some y \<Longrightarrow> is_double y"
  by (auto simp: rnd_Some_iff is_double_iff nearest_idem)


lemma nearest_multiple:
  assumes "x = of_int j * 2 powi ulp_exponent x"
  shows "nearest x = x"
proof (cases "x = 0")
  case True
  then show ?thesis by simp
next
  case False
  define q :: real where "q = 2 powi ulp_exponent x"
  have qpos: "0 < q" by (simp add: q_def)
  have xq: "x = of_int j * q" using assms by (simp only: q_def)
  have "nearest x = of_int (round_even (x / q)) * q" using False by (simp add: nearest_def Let_def q_def)
  also have "x / q = of_int j" using qpos by (simp add: xq)
  finally show ?thesis by (simp add: xq)
qed

lemma nearest_int_pow2:
  assumes k: "\<bar>k\<bar> \<le> 2 ^ 53" and e: "- 1074 \<le> e"
  shows "nearest (of_int k * 2 powi e) = of_int k * 2 powi e"
proof (cases "k = 0")
  case True
  then show ?thesis by simp
next
  case k0: False
  define x :: real where "x = of_int k * 2 powi e"
  have x0: "x \<noteq> 0" using k0 by (simp add: x_def)
  have ax: "\<bar>x\<bar> = of_int \<bar>k\<bar> * 2 powi e" by (simp add: x_def abs_mult)
  have "\<exists>j::int. x = of_int j * 2 powi ulp_exponent x"
  proof (cases "ulp_exponent x \<le> e")
    case True
    from multiple_of_finer [OF True, of k] show ?thesis by (simp only: x_def)
  next
    case False
    then have gt: "e < ulp_exponent x" by simp
    with e have "- 1074 < ulp_exponent x" by linarith
    from scaled_ge [OF x0 this] have "(2::real) ^ 52 * 2 powi ulp_exponent x \<le> of_int \<bar>k\<bar> * 2 powi e"
      by (simp only: ax)
    moreover have "(2::real) powi (e + 1) \<le> 2 powi ulp_exponent x" using gt by (intro pow2_mono) simp
    then have "(2::real) ^ 52 * 2 powi (e + 1) \<le> 2 ^ 52 * 2 powi ulp_exponent x" by simp
    ultimately have "(2::real) ^ 52 * 2 powi (e + 1) \<le> of_int \<bar>k\<bar> * 2 powi e" by linarith
    then have "(2::real) ^ 53 * 2 powi e \<le> of_int \<bar>k\<bar> * 2 powi e" by (simp add: pow2_add)
    then have "(2::real) ^ 53 \<le> of_int \<bar>k\<bar>" by simp
    then have "real_of_int (2 ^ 53) \<le> of_int \<bar>k\<bar>" by simp
    then have "2 ^ 53 \<le> \<bar>k\<bar>" by (simp only: of_int_le_iff)
    with k have kk: "\<bar>k\<bar> = 2 ^ 53" by simp
    have "\<bar>x\<bar> = 2 ^ 53 * 2 powi e" by (simp add: ax kk)
    also have "\<dots> = 2 powi (53 + e)" by (simp only: pow2_add power_int_numeral)
    finally have xe: "\<bar>x\<bar> = 2 powi (53 + e)" .
    have "\<bar>x\<bar> < 2 powi (53 + e + 1)" unfolding xe by (rule power_int_strict_increasing) simp_all
    from ulp_exponent_normal [of "53 + e" x] xe this e have u: "ulp_exponent x = e + 1" by simp
    from kk have "k = 2 ^ 53 \<or> k = - (2 ^ 53)" by (auto simp: abs_if split: if_splits)
    then show ?thesis
    proof
      assume "k = 2 ^ 53"
      then have "x = of_int (2 ^ 52) * 2 powi (e + 1)" by (simp add: x_def pow2_add)
      then have "x = of_int (2 ^ 52) * 2 powi ulp_exponent x" unfolding u .
      then show ?thesis ..
    next
      assume "k = - (2 ^ 53)"
      then have "x = of_int (- (2 ^ 52)) * 2 powi (e + 1)" by (simp add: x_def pow2_add)
      then have "x = of_int (- (2 ^ 52)) * 2 powi ulp_exponent x" unfolding u .
      then show ?thesis ..
    qed
  qed
  then obtain j :: int where "x = of_int j * 2 powi ulp_exponent x" ..
  from nearest_multiple [OF this] show ?thesis by (simp only: x_def)
qed

lemma is_double_int_pow2:
  assumes "\<bar>k\<bar> \<le> 2 ^ 53" "- 1074 \<le> e" "\<bar>of_int k * (2::real) powi e\<bar> < 2 ^ 1024"
  shows "is_double (of_int k * 2 powi e)"
  using nearest_int_pow2 [OF assms(1,2)] assms(3) by (simp add: is_double_iff)

lemma is_double_of_int: "\<bar>k\<bar> \<le> 2 ^ 53 \<Longrightarrow> is_double (of_int k)"
  using is_double_int_pow2 [of k 0] by simp


text \<open>Rounding is monotone.\<close>

lemma ulp_exponent_mono:
  assumes "0 < x" "x \<le> y"
  shows "ulp_exponent x \<le> ulp_exponent y"
proof -
  have "log 2 x \<le> log 2 y" using assms by simp
  then have "\<lfloor>log 2 \<bar>x\<bar>\<rfloor> \<le> \<lfloor>log 2 \<bar>y\<bar>\<rfloor>" using assms by (simp add: floor_mono)
  then show ?thesis by (simp add: ulp_exponent_def)
qed

lemma nearest_mono_pos:
  assumes "0 < x" "x \<le> y"
  shows "nearest x \<le> nearest y"
proof (cases "ulp_exponent x = ulp_exponent y")
  case True
  have "x / 2 powi ulp_exponent y \<le> y / 2 powi ulp_exponent y"
    using assms by (simp add: divide_right_mono)
  from round_even_mono [OF this] show ?thesis
    using assms by (simp add: nearest_def Let_def True mult_right_mono)
next
  case False
  with ulp_exponent_mono [OF assms] have lt: "ulp_exponent x < ulp_exponent y" by simp
  define B :: real where "B = of_int (2 ^ 52) * 2 powi ulp_exponent y"
  have nB: "nearest B = B"
    unfolding B_def by (rule nearest_int_pow2) (simp_all add: ulp_exponent_ge)
  have x0: "x \<noteq> 0" and y0: "y \<noteq> 0" using assms by simp_all
  have "\<bar>x\<bar> < 2 ^ 53 * 2 powi ulp_exponent x" by (rule scaled_lt [OF x0])
  also have "\<dots> = 2 powi (53 + ulp_exponent x)" by (simp only: pow2_add power_int_numeral)
  also have "\<dots> \<le> 2 powi (52 + ulp_exponent y)" using lt by (intro pow2_mono) simp
  also have "\<dots> = B" unfolding B_def by (simp only: pow2_add power_int_numeral) simp
  finally have xB: "x \<le> B" using assms by simp
  have "- 1074 < ulp_exponent y" using lt ulp_exponent_ge [of x] by linarith
  from scaled_ge [OF y0 this] have By: "B \<le> y" using assms by (simp add: B_def)
  from nearest_le [OF nB xB] nearest_ge [OF nB By] show ?thesis by linarith
qed

lemma nearest_mono:
  assumes "x \<le> y"
  shows "nearest x \<le> nearest y"
proof -
  consider "0 < x" | "x \<le> 0" "0 \<le> y" | "y < 0" by linarith
  then show ?thesis
  proof cases
    case 1
    then show ?thesis using assms by (rule nearest_mono_pos)
  next
    case 2
    from nearest_le [of 0 x] nearest_ge [of 0 y] 2 show ?thesis by simp
  next
    case 3
    from nearest_mono_pos [of "- y" "- x"] 3 assms show ?thesis by (simp add: nearest_minus)
  qed
qed

lemma nearest_between:
  assumes "nearest a = v" "nearest b = v" "a \<le> x" "x \<le> b"
  shows "nearest x = v"
  using nearest_mono [OF assms(3)] nearest_mono [OF assms(4)] assms(1,2) by linarith

lemma rnd_between:
  assumes "rnd a = Some v" "rnd b = Some v" "a \<le> x" "x \<le> b"
  shows "rnd x = Some v"
  using assms nearest_between [of a v b x] by (simp add: rnd_Some_iff)

text \<open>The operations on finite numbers.\<close>

lemma fadd_Some [simp]: "fadd (Some x) (Some y) = rnd (x + y)"
  by (simp add: fadd_def)

lemma fsub_Some [simp]: "fsub (Some x) (Some y) = rnd (x - y)"
  by (simp add: fsub_def)

lemma fmul_Some [simp]: "fmul (Some x) (Some y) = rnd (x * y)"
  by (simp add: fmul_def)

lemma fdiv_Some [simp]: "fdiv (Some x) d = rnd (x / d)"
  by (simp add: fdiv_def)

lemma fop_None [simp]:
  "fadd None b = None" "fadd a None = None" "fsub None b = None" "fsub a None = None"
  "fmul None b = None" "fmul a None = None" "fdiv None d = None"
  by (cases a; simp add: fadd_def fsub_def fmul_def fdiv_def)+

lemma rnd_int: "\<bar>k\<bar> \<le> 2 ^ 53 \<Longrightarrow> rnd (of_int k) = Some (of_int k)"
  using is_double_of_int [of k] by (simp add: is_double_def)

lemma rnd_numeral [simp]: "numeral k \<le> (2 ^ 53 :: int) \<Longrightarrow> rnd (numeral k) = Some (numeral k)"
  using rnd_int [of "numeral k"] by simp

lemma rnd_1 [simp]: "rnd 1 = Some 1"
  using rnd_int [of 1] by simp

subsection \<open>Enclosures of the sine and the cosine\<close>

lemma alt_horner_sum:
  fixes a :: "nat \<Rightarrow> real"
  assumes "\<And>m. a (i + 2 * m + 1) = 0"
    and "\<And>m. a (i + 2 * m + 2) = - a (i + 2 * m) / (real (i + 2 * m + 1) * real (i + 2 * m + 2))"
  shows "(\<Sum>m = i..<n. a m * x ^ m) = a i * x ^ i * alt_horner i n (x ^ 2)"
  using assms
proof (induction i n "x ^ 2" rule: alt_horner.induct)
  case (1 i n)
  show ?case
  proof (cases "n \<le> i")
    case True
    then show ?thesis by (simp add: alt_horner.simps [of i n])
  next
    case False
    have z: "a (i + 1) = 0" using "1.prems"(1) [of 0] by simp
    have r: "a (i + 2) = - a i / (real (i + 1) * real (i + 2))" using "1.prems"(2) [of 0] by simp
    have IH: "(\<Sum>m = i + 2..<n. a m * x ^ m) = a (i + 2) * x ^ (i + 2) * alt_horner (i + 2) n (x ^ 2)"
    proof (rule "1.hyps" [OF False])
      fix m
      show "a (i + 2 + 2 * m + 1) = 0" using "1.prems"(1) [of "m + 1"] by (simp add: algebra_simps)
      show "a (i + 2 + 2 * m + 2) = - a (i + 2 + 2 * m) / (real (i + 2 + 2 * m + 1) * real (i + 2 + 2 * m + 2))"
        using "1.prems"(2) [of "m + 1"] by (simp add: algebra_simps)
    qed
    have split: "(\<Sum>m = i..<n. a m * x ^ m) = a i * x ^ i + (\<Sum>m = i + 2..<n. a m * x ^ m)"
    proof (cases "n = i + 1")
      case True
      then show ?thesis by simp
    next
      case ne: False
      with False have "i + 2 \<le> n" by simp
      then have "{i..<n} = {i, i + 1} \<union> {i + 2..<n}" by auto
      then have "(\<Sum>m = i..<n. a m * x ^ m) = (\<Sum>m \<in> {i, i + 1} \<union> {i + 2..<n}. a m * x ^ m)" by simp
      also have "\<dots> = (\<Sum>m \<in> {i, i + 1}. a m * x ^ m) + (\<Sum>m = i + 2..<n. a m * x ^ m)"
        by (rule sum.union_disjoint) auto
      finally show ?thesis using z by simp
    qed
    show ?thesis
      unfolding split IH r alt_horner.simps [of i n]
      using False by (simp add: field_simps power2_eq_square)
  qed
qed

lemma alt_horner_bracket:
  assumes "i < n" "j = i + 2" "0 \<le> ylo" "ylo \<le> y" "y \<le> yhi"
    and "0 \<le> lo" "lo \<le> alt_horner j n y \<and> alt_horner j n y \<le> hi"
    and "L \<le> 1 - yhi / (real (i + 1) * real (i + 2)) * hi"
    and "1 - ylo / (real (i + 1) * real (i + 2)) * lo \<le> U"
  shows "L \<le> alt_horner i n y \<and> alt_horner i n y \<le> U"
proof -
  let ?c = "real (i + 1) * real (i + 2)"
  have c: "0 < ?c" by simp
  have "ylo / ?c * lo \<le> y / ?c * alt_horner j n y"
    using assms by (intro mult_mono divide_right_mono) simp_all
  moreover have "y / ?c * alt_horner j n y \<le> yhi / ?c * hi"
    using assms by (intro mult_mono divide_right_mono) simp_all
  moreover have "alt_horner i n y = 1 - y / ?c * alt_horner j n y"
    using assms(1,2) by (simp add: alt_horner.simps [of i n])
  ultimately show ?thesis using assms(8,9) by linarith
qed

lemma alt_horner_end: "alt_horner n n y = 0"
  by (simp add: alt_horner.simps [of n n])

lemma sin_bound: "\<bar>sin x - (\<Sum>m<n. sin_coeff m * x ^ m)\<bar> \<le> \<bar>x\<bar> ^ n / fact n"
proof -
  from Maclaurin_sin_expansion2 [of x n] obtain t where
    t: "sin x = (\<Sum>m<n. sin_coeff m * x ^ m) + (sin (t + 1/2 * real n * pi) / fact n) * x ^ n" by blast
  have "\<bar>sin x - (\<Sum>m<n. sin_coeff m * x ^ m)\<bar> = \<bar>sin (t + 1/2 * real n * pi)\<bar> * (\<bar>x\<bar> ^ n / fact n)"
    unfolding t by (simp add: abs_mult power_abs)
  also have "\<dots> \<le> 1 * (\<bar>x\<bar> ^ n / fact n)"
    by (intro mult_right_mono) simp_all
  finally show ?thesis by simp
qed

lemma cos_bound: "\<bar>cos x - (\<Sum>m<n. cos_coeff m * x ^ m)\<bar> \<le> \<bar>x\<bar> ^ n / fact n"
proof -
  from Maclaurin_cos_expansion [of x n] obtain t where
    t: "cos x = (\<Sum>m<n. cos_coeff m * x ^ m) + (cos (t + 1/2 * real n * pi) / fact n) * x ^ n" by blast
  have "\<bar>cos x - (\<Sum>m<n. cos_coeff m * x ^ m)\<bar> = \<bar>cos (t + 1/2 * real n * pi)\<bar> * (\<bar>x\<bar> ^ n / fact n)"
    unfolding t by (simp add: abs_mult power_abs)
  also have "\<dots> \<le> 1 * (\<bar>x\<bar> ^ n / fact n)"
    by (intro mult_right_mono) simp_all
  finally show ?thesis by simp
qed

lemma sin_coeff_rec:
  "sin_coeff (1 + 2 * m + 1) = 0"
  "sin_coeff (1 + 2 * m + 2) = - sin_coeff (1 + 2 * m) / (real (1 + 2 * m + 1) * real (1 + 2 * m + 2))"
  by (simp_all add: sin_coeff_def)

lemma cos_coeff_rec:
  "cos_coeff (0 + 2 * m + 1) = 0"
  "cos_coeff (0 + 2 * m + 2) = - cos_coeff (0 + 2 * m) / (real (0 + 2 * m + 1) * real (0 + 2 * m + 2))"
  by (simp_all add: cos_coeff_def)

lemma sin_horner: "\<bar>sin x - x * alt_horner 1 n (x ^ 2)\<bar> \<le> \<bar>x\<bar> ^ n / fact n"
proof (cases "n = 0")
  case True
  then show ?thesis using alt_horner.simps [of 1 0 "x ^ 2"] abs_sin_le_one [of x] by simp
next
  case False
  then have "{..<n} = insert 0 {1..<n}" by auto
  then have "(\<Sum>m<n. sin_coeff m * x ^ m) = (\<Sum>m = 1..<n. sin_coeff m * x ^ m)"
    by (simp add: sin_coeff_def)
  also have "\<dots> = sin_coeff 1 * x ^ 1 * alt_horner 1 n (x ^ 2)"
    by (rule alt_horner_sum) (rule sin_coeff_rec)+
  finally show ?thesis using sin_bound [of x n] by (simp add: sin_coeff_def)
qed

lemma cos_horner: "\<bar>cos x - alt_horner 0 n (x ^ 2)\<bar> \<le> \<bar>x\<bar> ^ n / fact n"
proof -
  have "(\<Sum>m<n. cos_coeff m * x ^ m) = (\<Sum>m = 0..<n. cos_coeff m * x ^ m)"
    by (simp add: atLeast0LessThan)
  also have "\<dots> = cos_coeff 0 * x ^ 0 * alt_horner 0 n (x ^ 2)"
    by (rule alt_horner_sum) (rule cos_coeff_rec)+
  finally show ?thesis using cos_bound [of x n] by (simp add: cos_coeff_def)
qed


lemma abs_power_even: "\<bar>x\<bar> ^ (2 * k) = (x\<^sup>2) ^ k" for x :: real
  by (simp add: power_mult)

lemma abs_power_odd: "\<bar>x\<bar> ^ (2 * k + 1) = \<bar>x\<bar> * (x\<^sup>2) ^ k" for x :: real
  by (simp add: power_mult)

lemma cos_bracketI:
  assumes "x\<^sup>2 \<le> B"
    and "lo \<le> alt_horner 0 (2 * k) (x\<^sup>2) \<and> alt_horner 0 (2 * k) (x\<^sup>2) \<le> hi"
    and "B ^ k / fact (2 * k) \<le> R" "L \<le> lo - R" "hi + R \<le> U"
  shows "L \<le> cos x \<and> cos x \<le> U"
proof -
  have "\<bar>x\<bar> ^ (2 * k) \<le> B ^ k" unfolding abs_power_even using assms(1) by (intro power_mono) simp_all
  then have "\<bar>x\<bar> ^ (2 * k) / fact (2 * k) \<le> B ^ k / fact (2 * k)" by (simp add: divide_right_mono)
  with cos_horner [of x "2 * k"] assms(2-) show ?thesis by linarith
qed

lemma sin_bracketI:
  assumes "0 \<le> xlo" "xlo \<le> x" "x \<le> xhi" "x\<^sup>2 \<le> B" "0 \<le> lo"
    and "lo \<le> alt_horner 1 (2 * k + 1) (x\<^sup>2) \<and> alt_horner 1 (2 * k + 1) (x\<^sup>2) \<le> hi"
    and "xhi * B ^ k / fact (2 * k + 1) \<le> R" "L \<le> xlo * lo - R" "xhi * hi + R \<le> U"
  shows "L \<le> sin x \<and> sin x \<le> U"
proof -
  have "(x\<^sup>2) ^ k \<le> B ^ k" using assms(4) by (intro power_mono) simp_all
  then have "\<bar>x\<bar> * (x\<^sup>2) ^ k \<le> xhi * B ^ k" using assms(1-3) by (intro mult_mono) simp_all
  then have "\<bar>x\<bar> ^ (2 * k + 1) \<le> xhi * B ^ k" unfolding abs_power_odd .
  then have r: "\<bar>x\<bar> ^ (2 * k + 1) / fact (2 * k + 1) \<le> xhi * B ^ k / fact (2 * k + 1)"
    by (simp add: divide_right_mono)
  have "xlo * lo \<le> x * alt_horner 1 (2 * k + 1) (x\<^sup>2)"
    using assms(1,2,5,6) by (intro mult_mono) simp_all
  moreover have "x * alt_horner 1 (2 * k + 1) (x\<^sup>2) \<le> xhi * hi"
    using assms(1,2,3,5,6) by (intro mult_mono) simp_all
  ultimately show ?thesis using sin_horner [of x "2 * k + 1"] r assms(7-) by linarith
qed

subsection \<open>The projection at the examples\<close>

text \<open>The tangent at \<^verbatim>\<open>Math.PI / 4\<close>: just below 1, since \<^verbatim>\<open>Math.PI\<close> is just below \<open>\<pi>\<close>.\<close>

lemma cos_quarter:
  fixes x :: real
  assumes "884279719003555 / 2 ^ 50 \<le> x" "x \<le> 884279719003555 / 2 ^ 50"
  shows "1669608681642596174297 / 2 ^ 71 \<le> cos x \<and> cos x \<le> 1669608681642596174299 / 2 ^ 71"
proof -
  have a: "781950621441006189802102638025 / 2 ^ 100 \<le> x * x" using mult_mono [of "884279719003555 / 2 ^ 50" x "884279719003555 / 2 ^ 50" x] assms by simp
  have b: "x * x \<le> 781950621441006189802102638025 / 2 ^ 100" using mult_mono [of x "884279719003555 / 2 ^ 50" x "884279719003555 / 2 ^ 50"] assms by simp
  have y: "2912993063930445126451 / 2 ^ 72 \<le> x\<^sup>2" "x\<^sup>2 \<le> 728248265982611281613 / 2 ^ 70"
    using order_trans [OF _ a, of "2912993063930445126451 / 2 ^ 72"] order_trans [OF b, of "728248265982611281613 / 2 ^ 70"]
    by (simp_all add: power2_eq_square)
  have h22: "0 \<le> alt_horner 22 22 (x\<^sup>2) \<and> alt_horner 22 22 (x\<^sup>2) \<le> 0"
    by (simp add: alt_horner_end)
  have h20: "1 \<le> alt_horner 20 22 (x\<^sup>2) \<and> alt_horner 20 22 (x\<^sup>2) \<le> 1"
    by (rule alt_horner_bracket [where j = 22 and ylo = "2912993063930445126451 / 2 ^ 72" and yhi = "728248265982611281613 / 2 ^ 70" and lo = "0" and hi = "0"])
       (use y h22 in simp_all)
  have h18: "4714700711648775621257 / 2 ^ 72 \<le> alt_horner 18 22 (x\<^sup>2) \<and> alt_horner 18 22 (x\<^sup>2) \<le> 2357350355824387810629 / 2 ^ 71"
    by (rule alt_horner_bracket [where j = 20 and ylo = "2912993063930445126451 / 2 ^ 72" and yhi = "728248265982611281613 / 2 ^ 70" and lo = "1" and hi = "1"])
       (use y h20 in simp_all)
  have h16: "589107793842837905507 / 2 ^ 69 \<le> alt_horner 16 22 (x\<^sup>2) \<and> alt_horner 16 22 (x\<^sup>2) \<le> 4712862350742703244057 / 2 ^ 72"
    by (rule alt_horner_bracket [where j = 18 and ylo = "2912993063930445126451 / 2 ^ 72" and yhi = "728248265982611281613 / 2 ^ 70" and lo = "4714700711648775621257 / 2 ^ 72" and hi = "2357350355824387810629 / 2 ^ 71"])
       (use y h18 in simp_all)
  have h14: "2355126719690210820285 / 2 ^ 71 \<le> alt_horner 14 22 (x\<^sup>2) \<and> alt_horner 14 22 (x\<^sup>2) \<le> 4710253439380421640571 / 2 ^ 72"
    by (rule alt_horner_bracket [where j = 16 and ylo = "2912993063930445126451 / 2 ^ 72" and yhi = "728248265982611281613 / 2 ^ 70" and lo = "589107793842837905507 / 2 ^ 69" and hi = "4712862350742703244057 / 2 ^ 72"])
       (use y h16 in simp_all)
  have h12: "588300260132248092721 / 2 ^ 69 \<le> alt_horner 12 22 (x\<^sup>2) \<and> alt_horner 12 22 (x\<^sup>2) \<le> 4706402081057984741769 / 2 ^ 72"
    by (rule alt_horner_bracket [where j = 14 and ylo = "2912993063930445126451 / 2 ^ 72" and yhi = "728248265982611281613 / 2 ^ 70" and lo = "2355126719690210820285 / 2 ^ 71" and hi = "4710253439380421640571 / 2 ^ 72"])
       (use y h14 in simp_all)
  have h10: "587546619621696537193 / 2 ^ 69 \<le> alt_horner 10 22 (x\<^sup>2) \<and> alt_horner 10 22 (x\<^sup>2) \<le> 4700372956973572297545 / 2 ^ 72"
    by (rule alt_horner_bracket [where j = 12 and ylo = "2912993063930445126451 / 2 ^ 72" and yhi = "728248265982611281613 / 2 ^ 70" and lo = "588300260132248092721 / 2 ^ 69" and hi = "4706402081057984741769 / 2 ^ 72"])
       (use y h12 in simp_all)
  have h8: "4690150634520403708135 / 2 ^ 72 \<le> alt_horner 8 22 (x\<^sup>2) \<and> alt_horner 8 22 (x\<^sup>2) \<le> 586268829315050463517 / 2 ^ 69"
    by (rule alt_horner_bracket [where j = 10 and ylo = "2912993063930445126451 / 2 ^ 72" and yhi = "728248265982611281613 / 2 ^ 70" and lo = "587546619621696537193 / 2 ^ 69" and hi = "4700372956973572297545 / 2 ^ 72"])
       (use y h10 in simp_all)
  have h6: "583837951633226491453 / 2 ^ 69 \<le> alt_horner 6 22 (x\<^sup>2) \<and> alt_horner 6 22 (x\<^sup>2) \<le> 4670703613065811931625 / 2 ^ 72"
    by (rule alt_horner_bracket [where j = 8 and ylo = "2912993063930445126451 / 2 ^ 72" and yhi = "728248265982611281613 / 2 ^ 70" and lo = "4690150634520403708135 / 2 ^ 72" and hi = "586268829315050463517 / 2 ^ 69"])
       (use y h8 in simp_all)
  have h4: "4626328989253607083335 / 2 ^ 72 \<le> alt_horner 4 22 (x\<^sup>2) \<and> alt_horner 4 22 (x\<^sup>2) \<le> 578291123656700885417 / 2 ^ 69"
    by (rule alt_horner_bracket [where j = 6 and ylo = "2912993063930445126451 / 2 ^ 72" and yhi = "728248265982611281613 / 2 ^ 70" and lo = "583837951633226491453 / 2 ^ 69" and hi = "4670703613065811931625 / 2 ^ 72"])
       (use y h6 in simp_all)
  have h2: "1121138447601233333393 / 2 ^ 70 \<le> alt_horner 2 22 (x\<^sup>2) \<and> alt_horner 2 22 (x\<^sup>2) \<le> 4484553790404933333573 / 2 ^ 72"
    by (rule alt_horner_bracket [where j = 4 and ylo = "2912993063930445126451 / 2 ^ 72" and yhi = "728248265982611281613 / 2 ^ 70" and lo = "4626328989253607083335 / 2 ^ 72" and hi = "578291123656700885417 / 2 ^ 69"])
       (use y h4 in simp_all)
  have h0: "3339217363285192348595 / 2 ^ 72 \<le> alt_horner 0 22 (x\<^sup>2) \<and> alt_horner 0 22 (x\<^sup>2) \<le> 3339217363285192348597 / 2 ^ 72"
    by (rule alt_horner_bracket [where j = 2 and ylo = "2912993063930445126451 / 2 ^ 72" and yhi = "728248265982611281613 / 2 ^ 70" and lo = "1121138447601233333393 / 2 ^ 70" and hi = "4484553790404933333573 / 2 ^ 72"])
       (use y h2 in simp_all)
  show ?thesis
    by (rule cos_bracketI [where k = 11 and B = "5 / 8" and lo = "3339217363285192348595 / 2 ^ 72" and hi = "3339217363285192348597 / 2 ^ 72" and R = "1 / 2 ^ 72"])
       (use y h0 in \<open>simp_all add: fact_numeral power_divide\<close>)
qed

lemma sin_quarter:
  fixes x :: real
  assumes "884279719003555 / 2 ^ 50 \<le> x" "x \<le> 884279719003555 / 2 ^ 50"
  shows "3339217363285192144125 / 2 ^ 72 \<le> sin x \<and> sin x \<le> 1669608681642596072065 / 2 ^ 71"
proof -
  have a: "781950621441006189802102638025 / 2 ^ 100 \<le> x * x" using mult_mono [of "884279719003555 / 2 ^ 50" x "884279719003555 / 2 ^ 50" x] assms by simp
  have b: "x * x \<le> 781950621441006189802102638025 / 2 ^ 100" using mult_mono [of x "884279719003555 / 2 ^ 50" x "884279719003555 / 2 ^ 50"] assms by simp
  have y: "2912993063930445126451 / 2 ^ 72 \<le> x\<^sup>2" "x\<^sup>2 \<le> 728248265982611281613 / 2 ^ 70"
    using order_trans [OF _ a, of "2912993063930445126451 / 2 ^ 72"] order_trans [OF b, of "728248265982611281613 / 2 ^ 70"]
    by (simp_all add: power2_eq_square)
  have h23: "0 \<le> alt_horner 23 23 (x\<^sup>2) \<and> alt_horner 23 23 (x\<^sup>2) \<le> 0"
    by (simp add: alt_horner_end)
  have h21: "1 \<le> alt_horner 21 23 (x\<^sup>2) \<and> alt_horner 21 23 (x\<^sup>2) \<le> 1"
    by (rule alt_horner_bracket [where j = 23 and ylo = "2912993063930445126451 / 2 ^ 72" and yhi = "728248265982611281613 / 2 ^ 70" and lo = "0" and hi = "0"])
       (use y h23 in simp_all)
  have h19: "4715430785098382249109 / 2 ^ 72 \<le> alt_horner 19 23 (x\<^sup>2) \<and> alt_horner 19 23 (x\<^sup>2) \<le> 2357715392549191124555 / 2 ^ 71"
    by (rule alt_horner_bracket [where j = 21 and ylo = "2912993063930445126451 / 2 ^ 72" and yhi = "728248265982611281613 / 2 ^ 70" and lo = "1" and hi = "1"])
       (use y h21 in simp_all)
  have h17: "4713861468902240381931 / 2 ^ 72 \<le> alt_horner 17 23 (x\<^sup>2) \<and> alt_horner 17 23 (x\<^sup>2) \<le> 1178465367225560095483 / 2 ^ 70"
    by (rule alt_horner_bracket [where j = 19 and ylo = "2912993063930445126451 / 2 ^ 72" and yhi = "728248265982611281613 / 2 ^ 70" and lo = "4715430785098382249109 / 2 ^ 72" and hi = "2357715392549191124555 / 2 ^ 71"])
       (use y h19 in simp_all)
  have h15: "2355838118744151295171 / 2 ^ 71 \<le> alt_horner 15 23 (x\<^sup>2) \<and> alt_horner 15 23 (x\<^sup>2) \<le> 4711676237488302590343 / 2 ^ 72"
    by (rule alt_horner_bracket [where j = 17 and ylo = "2912993063930445126451 / 2 ^ 72" and yhi = "728248265982611281613 / 2 ^ 70" and lo = "4713861468902240381931 / 2 ^ 72" and hi = "1178465367225560095483 / 2 ^ 70"])
       (use y h17 in simp_all)
  have h13: "2354263244332140657787 / 2 ^ 71 \<le> alt_horner 13 23 (x\<^sup>2) \<and> alt_horner 13 23 (x\<^sup>2) \<le> 4708526488664281315575 / 2 ^ 72"
    by (rule alt_horner_bracket [where j = 15 and ylo = "2912993063930445126451 / 2 ^ 72" and yhi = "728248265982611281613 / 2 ^ 70" and lo = "2355838118744151295171 / 2 ^ 71" and hi = "4711676237488302590343 / 2 ^ 72"])
       (use y h15 in simp_all)
  have h11: "1175937044019177448127 / 2 ^ 70 \<le> alt_horner 11 23 (x\<^sup>2) \<and> alt_horner 11 23 (x\<^sup>2) \<le> 4703748176076709792509 / 2 ^ 72"
    by (rule alt_horner_bracket [where j = 13 and ylo = "2912993063930445126451 / 2 ^ 72" and yhi = "728248265982611281613 / 2 ^ 70" and lo = "2354263244332140657787 / 2 ^ 71" and hi = "4708526488664281315575 / 2 ^ 72"])
       (use y h13 in simp_all)
  have h9: "4695989134176336841705 / 2 ^ 72 \<le> alt_horner 9 23 (x\<^sup>2) \<and> alt_horner 9 23 (x\<^sup>2) \<le> 2347994567088168420853 / 2 ^ 71"
    by (rule alt_horner_bracket [where j = 11 and ylo = "2912993063930445126451 / 2 ^ 72" and yhi = "728248265982611281613 / 2 ^ 70" and lo = "1175937044019177448127 / 2 ^ 70" and hi = "4703748176076709792509 / 2 ^ 72"])
       (use y h11 in simp_all)
  have h7: "4682134230242792282191 / 2 ^ 72 \<le> alt_horner 7 23 (x\<^sup>2) \<and> alt_horner 7 23 (x\<^sup>2) \<le> 292633389390174517637 / 2 ^ 68"
    by (rule alt_horner_bracket [where j = 9 and ylo = "2912993063930445126451 / 2 ^ 72" and yhi = "728248265982611281613 / 2 ^ 70" and lo = "4695989134176336841705 / 2 ^ 72" and hi = "2347994567088168420853 / 2 ^ 71"])
       (use y h9 in simp_all)
  have h5: "290850024542699608273 / 2 ^ 68 \<le> alt_horner 5 23 (x\<^sup>2) \<and> alt_horner 5 23 (x\<^sup>2) \<le> 4653600392683193732369 / 2 ^ 72"
    by (rule alt_horner_bracket [where j = 7 and ylo = "2912993063930445126451 / 2 ^ 72" and yhi = "728248265982611281613 / 2 ^ 70" and lo = "4682134230242792282191 / 2 ^ 72" and hi = "292633389390174517637 / 2 ^ 68"])
       (use y h7 in simp_all)
  have h3: "2289418874377733211875 / 2 ^ 71 \<le> alt_horner 3 23 (x\<^sup>2) \<and> alt_horner 3 23 (x\<^sup>2) \<le> 4578837748755466423751 / 2 ^ 72"
    by (rule alt_horner_bracket [where j = 5 and ylo = "2912993063930445126451 / 2 ^ 72" and yhi = "728248265982611281613 / 2 ^ 70" and lo = "290850024542699608273 / 2 ^ 68" and hi = "4653600392683193732369 / 2 ^ 72"])
       (use y h5 in simp_all)
  have h1: "4251623595400988559711 / 2 ^ 72 \<le> alt_horner 1 23 (x\<^sup>2) \<and> alt_horner 1 23 (x\<^sup>2) \<le> 4251623595400988559713 / 2 ^ 72"
    by (rule alt_horner_bracket [where j = 3 and ylo = "2912993063930445126451 / 2 ^ 72" and yhi = "728248265982611281613 / 2 ^ 70" and lo = "2289418874377733211875 / 2 ^ 71" and hi = "4578837748755466423751 / 2 ^ 72"])
       (use y h3 in simp_all)
  show ?thesis
    by (rule sin_bracketI [where k = 11 and xlo = "884279719003555 / 2 ^ 50" and xhi = "884279719003555 / 2 ^ 50" and B = "5 / 8" and lo = "4251623595400988559711 / 2 ^ 72" and hi = "4251623595400988559713 / 2 ^ 72" and R = "1 / 2 ^ 72"])
       (use assms y h1 in \<open>simp_all add: fact_numeral power_divide\<close>)
qed

lemma tan_quarter: "1 - 1 / 2 ^ 52 \<le> tan (Math_PI / 4) \<and> tan (Math_PI / 4) \<le> 1"
proof -
  have x: "884279719003555 / 2 ^ 50 \<le> Math_PI / 4" "Math_PI / 4 \<le> 884279719003555 / 2 ^ 50"
    by (simp_all add: Math_PI_def)
  note c = cos_quarter [OF x] and s = sin_quarter [OF x]
  from c have pos: "0 < cos (Math_PI / 4)" by simp
  have "(1 - 1 / 2 ^ 52) * cos (Math_PI / 4) \<le> sin (Math_PI / 4)" using c s by simp
  moreover have "sin (Math_PI / 4) \<le> 1 * cos (Math_PI / 4)" using c s by simp
  ultimately show ?thesis using pos by (simp add: tan_def field_simps)
qed


lemma is_double_examples:
  "is_double (1 - 1 / 2 ^ 52)" "is_double (- (1 / 2 ^ 52 + 1 / 2 ^ 103))" "is_double (- (1 / 2 ^ 53))"
  using is_double_int_pow2 [of "2 ^ 52 - 1" "- 52"] is_double_int_pow2 [of "- (2 ^ 51 + 1)" "- 103"]
    is_double_int_pow2 [of "- 1" "- 53"]
  by simp_all

lemma rnd_one_tie: "rnd (1 + 1 / 2 ^ 53) = Some 1"
  using rnd_evalI [where u = "- 52" and q = "1 / 2 ^ 52" and x = "1 + 1 / 2 ^ 53" and m = "2 ^ 52"]
  by (simp add: round_even_tie_down [where m = "2 ^ 52"])

lemma ln_near_one:
  fixes t :: real
  assumes "1 - 1 / 2 ^ 52 \<le> t" "t \<le> 1"
  shows "- (1 / 2 ^ 52 + 1 / 2 ^ 103) \<le> ln t \<and> ln t \<le> 0"
proof -
  have "- (1 / 2 ^ 52) - 2 * (1 / 2 ^ 52)\<^sup>2 \<le> ln (1 - 1 / 2 ^ 52 :: real)"
    by (rule ln_one_minus_pos_lower_bound) simp_all
  also have "\<dots> \<le> ln t" using assms by (intro ln_mono) simp_all
  finally have "- (1 / 2 ^ 52 + 1 / 2 ^ 103) \<le> ln t" by (simp add: power2_eq_square)
  moreover have "0 < t" using assms by (simp add: field_simps)
  then have "ln t \<le> 0" using assms by simp
  ultimately show ?thesis by simp
qed

lemma rnd_quarter_pi: "rnd (884279719003555 / 1125899906842624) = Some (884279719003555 / 1125899906842624)"
  using rnd_evalI [where u = "- 53" and q = "1 / 2 ^ 53" and x = "884279719003555 / 2 ^ 50" and m = "7074237752028440"]
    by (simp add: round_even_eqI)


text \<open>The normalised latitude of the equator is one half.\<close>

lemma mercator_equator:
  "fdiv (fsub (Some 1) (fdiv (Math_log (Math_tan (fadd (fdiv (Some Math_PI) 4)
      (fdiv (fdiv (fmul (Some 0) (Some Math_PI)) 180) 2)))) Math_PI)) 2 = Some (1 / 2)"
proof -
  have arg: "fadd (fdiv (Some Math_PI) 4) (fdiv (fdiv (fmul (Some 0) (Some Math_PI)) 180) 2)
      = Some (Math_PI / 4)"
    using rnd_quarter_pi by (simp add: Math_PI_def)
  from rnd_bracket [OF is_double_examples(1) _ conjunct1 [OF tan_quarter] conjunct2 [OF tan_quarter]]
  obtain t where t: "rnd (tan (Math_PI / 4)) = Some t" "1 - 1 / 2 ^ 52 \<le> t" "t \<le> 1"
    using is_double_of_int [of 1] by auto
  have tpos: "0 < t" using t(2) by (simp add: field_simps) 
  note l = ln_near_one [OF t(2,3)]
  from rnd_bracket [OF is_double_examples(2) is_double_0 conjunct1 [OF l] conjunct2 [OF l]]
  obtain l where l: "rnd (ln t) = Some l" "- (1 / 2 ^ 52 + 1 / 2 ^ 103) \<le> l" "l \<le> 0" by auto
  have "- (1 / 2 ^ 53) \<le> - (1 / 2 ^ 52 + 1 / 2 ^ 103) / Math_PI" by (simp add: Math_PI_def)
  also have "\<dots> \<le> l / Math_PI" using l(2) by (intro divide_right_mono) (simp_all add: Math_PI_def)
  finally have q1: "- (1 / 2 ^ 53) \<le> l / Math_PI" .
  have q2: "l / Math_PI \<le> 0" using l(3) by (simp add: Math_PI_def divide_le_0_iff)
  from rnd_bracket [OF is_double_examples(3) is_double_0 q1 q2]
  obtain q where q: "rnd (l / Math_PI) = Some q" "- (1 / 2 ^ 53) \<le> q" "q \<le> 0" by auto
  have one: "rnd (1 - q) = Some 1"
    by (rule rnd_between [OF rnd_1 rnd_one_tie]) (use q in simp_all)
  have half: "rnd (1 / 2) = Some (1 / 2)"
    using is_double_int_pow2 [of 1 "- 1"] by (simp add: is_double_def)
  show ?thesis
    unfolding arg using tpos by (simp add: Math_tan_def Math_log_def t l q one half)
qed

lemma Math_pow2_11 [simp]: "Math_pow2 11 = Some 2048"
  by (simp add: Math_pow2_def)

lemma latLonToTile_example_0:
  "latLonToTile 0 0 ZOOM_LEVEL TILE_SIZE
     = \<lparr>tileX = Some 1024, tileY = Some 1024, pixelX = Some 0, pixelY = Some 0\<rparr>"
proof -
  have half: "rnd (1 / 2) = Some (1 / 2)"
    using is_double_int_pow2 [of 1 "- 1"] by (simp add: is_double_def)
  show ?thesis
    unfolding latLonToTile_def Let_def mercator_equator
    by (simp add: ZOOM_LEVEL_def TILE_SIZE_def Math_floor_def half)
qed

lemma latLonToTile_example_90:
  "latLonToTile 0 90 ZOOM_LEVEL TILE_SIZE
     = \<lparr>tileX = Some 1536, tileY = Some 1024, pixelX = Some 0, pixelY = Some 0\<rparr>"
proof -
  have q: "rnd (3 / 4) = Some (3 / 4)"
    using is_double_int_pow2 [of 3 "- 2"] by (simp add: is_double_def)
  show ?thesis
    unfolding latLonToTile_def Let_def mercator_equator
    by (simp add: ZOOM_LEVEL_def TILE_SIZE_def Math_floor_def q)
qed

lemma rnd_x_153: "rnd (3 / 40) = Some (5404319552844595 / 72057594037927936)"
  using rnd_evalI [where u = "- 56" and q = "1 / 2 ^ 56" and x = "3 / 40" and m = "5404319552844595"]
    by (simp add: round_even_eqI)

lemma rnd_xn_153: "rnd (5404319552844595 / 35184372088832) = Some (5404319552844595 / 35184372088832)"
  using rnd_evalI [where u = "- 45" and q = "1 / 2 ^ 45" and x = "5404319552844595 / 2 ^ 45" and m = "5404319552844595"]
    by (simp add: round_even_eqI)

lemma rnd_frac_153: "rnd (21110623253299 / 35184372088832) = Some (21110623253299 / 35184372088832)"
  using rnd_evalI [where u = "- 53" and q = "1 / 2 ^ 53" and x = "21110623253299 / 2 ^ 45" and m = "5404319552844544"]
    by (simp add: round_even_eqI)

lemma rnd_px_153: "rnd (2638827906662375 / 4398046511104) = Some (2638827906662375 / 4398046511104)"
  using rnd_evalI [where u = "- 43" and q = "1 / 2 ^ 43" and x = "2638827906662375 / 2 ^ 42" and m = "5277655813324750"]
    by (simp add: round_even_eqI)

lemma latLonToTile_example_153:
  "latLonToTile 0 (- 153) ZOOM_LEVEL TILE_SIZE
     = \<lparr>tileX = Some 153, tileY = Some 1024, pixelX = Some 599, pixelY = Some 0\<rparr>"
proof -
  have half: "rnd (1 / 2) = Some (1 / 2)"
    using is_double_int_pow2 [of 1 "- 1"] by (simp add: is_double_def)
  show ?thesis
    unfolding latLonToTile_def Let_def mercator_equator
    by (simp add: ZOOM_LEVEL_def TILE_SIZE_def Math_floor_def half
          rnd_x_153 rnd_xn_153 rnd_frac_153 rnd_px_153)
qed

lemma rnd_pole_1: "rnd (- (39792587355159975 / 140737488355328)) = Some (- (4974073419394997 / 17592186044416))"
  using rnd_evalI [where u = "- 44" and q = "1 / 2 ^ 44" and x = "- (39792587355159975 / 2 ^ 47)" and m = "- 4974073419394997"]
    by (simp add: round_even_eqI)

lemma rnd_pole_2: "rnd (- (4974073419394997 / 3166593487994880)) = Some (- (884279719003555 / 562949953421312))"
  using rnd_evalI [where u = "- 52" and q = "1 / 2 ^ 52" and x = "- (4974073419394997 / 3166593487994880)" and m = "- 7074237752028440"]
    by (simp add: round_even_eqI)

lemma rnd_pole_3: "rnd (- (884279719003555 / 1125899906842624)) = Some (- (884279719003555 / 1125899906842624))"
  using rnd_evalI [where u = "- 53" and q = "1 / 2 ^ 53" and x = "- (884279719003555 / 2 ^ 50)" and m = "- 7074237752028440"]
    by (simp add: round_even_eqI)


text \<open>At latitude -90 the argument of the tangent is exactly 0.\<close>

lemma latLonToTile_example_pole:
  "tileX (latLonToTile (- 90) 0 ZOOM_LEVEL TILE_SIZE) = Some 1024"
  "tileY (latLonToTile (- 90) 0 ZOOM_LEVEL TILE_SIZE) = None"
  "pixelX (latLonToTile (- 90) 0 ZOOM_LEVEL TILE_SIZE) = Some 0"
  "pixelY (latLonToTile (- 90) 0 ZOOM_LEVEL TILE_SIZE) = None"
proof -
  have half: "rnd (1 / 2) = Some (1 / 2)"
    using is_double_int_pow2 [of 1 "- 1"] by (simp add: is_double_def)
  have arg: "fadd (fdiv (Some Math_PI) 4) (fdiv (fdiv (fmul (Some (- 90)) (Some Math_PI)) 180) 2) = Some 0"
    by (simp add: Math_PI_def rnd_quarter_pi rnd_pole_1 rnd_pole_2 rnd_pole_3)
  show "tileX (latLonToTile (- 90) 0 ZOOM_LEVEL TILE_SIZE) = Some 1024"
    "tileY (latLonToTile (- 90) 0 ZOOM_LEVEL TILE_SIZE) = None"
    "pixelX (latLonToTile (- 90) 0 ZOOM_LEVEL TILE_SIZE) = Some 0"
    "pixelY (latLonToTile (- 90) 0 ZOOM_LEVEL TILE_SIZE) = None"
    unfolding latLonToTile_def Let_def arg
    by (simp_all add: ZOOM_LEVEL_def TILE_SIZE_def Math_floor_def Math_tan_def Math_log_def half)
qed

subsection \<open>Tile grid: the synchronous part of a rebuild in closed form\<close>

lemmas tiles_unfold = buildTileGrid_def grid_offsets_def buildTileGrid_cell_def createTilePlane_def
  createAlphaFogMaterial_def calculateTilePosition_def Let_def TILE_SIZE_def

lemmas closed_unfold = start_state_def start_rebuild_def start_fetches_def grid_cells_def
  grid_planes_def grid_offsets_def TILE_SIZE_def

lemma replicate_9: "replicate 9 x = [x, x, x, x, x, x, x, x, x]"
  by (simp add: numeral_eq_Suc)

lemma loadTileGridTextures_closed:
  assumes "tileX (latLonToTile lat lon ZOOM_LEVEL TILE_SIZE) = txo"
          "tileY (latLonToTile lat lon ZOOM_LEVEL TILE_SIZE) = tyo"
          "pixelX (latLonToTile lat lon ZOOM_LEVEL TILE_SIZE) = pxo"
          "pixelY (latLonToTile lat lon ZOOM_LEVEL TILE_SIZE) = pyo"
  shows "loadTileGridTextures lat lon s =
    (start_state s txo tyo pxo pyo
       (nths (grid_cells (length (planes s)) (length (materials s)) txo tyo) (grid_kept txo tyo)),
     start_rebuild s
       (nths (grid_cells (length (planes s)) (length (materials s)) txo tyo) (grid_kept txo tyo)),
     start_fetches
       (nths (grid_cells (length (planes s)) (length (materials s)) txo tyo) (grid_kept txo tyo)))"
  unfolding loadTileGridTextures_def Let_def assms
  apply (simp add: tiles_unfold)
  apply (cases txo; cases tyo;
         simp add: closed_unfold replicate_9 nths_Cons grid_kept_def option.map_comp comp_def)
  done

subsection \<open>Tile grid: while fetches are pending\<close>

lemma map_update_same: "f y = f (xs ! k) \<Longrightarrow> map f (xs[k := y]) = map f xs"
  by (cases "k < length xs") (simp_all add: map_update list_update_same_conv list_update_beyond)

lemma only_textures_changed_refl: "only_textures_changed n0 s s"
  by (simp add: only_textures_changed_def)

lemma only_textures_changed_texture_loaded:
  assumes "only_textures_changed n0 s1 s" "n0 \<le> snd (snd f)"
  shows "only_textures_changed n0 s1 (texture_loaded f s)"
  using assms
  by (simp add: only_textures_changed_def texture_loaded_def Let_def map_update_same)

lemma onLoadCallback_pending:
  "Suc (loadedCount rb) \<noteq> totalTiles rb \<Longrightarrow>
   onLoadCallback (s, rb) = (s, rb\<lparr>loadedCount := Suc (loadedCount rb)\<rparr>)"
  by (simp add: onLoadCallback_def Let_def)

lemma onLoadCallback_last:
  "Suc (loadedCount rb) = totalTiles rb \<Longrightarrow>
   onLoadCallback (s, rb) =
     (atomic_swap (rb\<lparr>loadedCount := Suc (loadedCount rb)\<rparr>) s, rb\<lparr>loadedCount := Suc (loadedCount rb)\<rparr>)"
  by (simp add: onLoadCallback_def Let_def)

lemma settled_pending:
  assumes "Suc (loadedCount rb) \<noteq> totalTiles rb" "only_textures_changed n0 s1 s" "n0 \<le> snd (snd f)"
  shows "\<exists>s'. loadSingleTileTexture_settled f out (s, rb) = (s', rb\<lparr>loadedCount := Suc (loadedCount rb)\<rparr>)
           \<and> only_textures_changed n0 s1 s'"
  using assms
  by (cases out)
     (simp_all add: loadSingleTileTexture_settled_def onLoadCallback_pending
        only_textures_changed_texture_loaded)

lemma settle_all_pending:
  assumes fs: "list_all (\<lambda>f. n0 \<le> snd (snd f)) fs"
  shows "only_textures_changed n0 s1 s \<Longrightarrow> list_all (\<lambda>e. fst e < length fs) evs \<Longrightarrow>
         loadedCount rb + length evs < totalTiles rb \<Longrightarrow>
         \<exists>s'. settle_all fs evs (s, rb) = (s', rb\<lparr>loadedCount := loadedCount rb + length evs\<rparr>)
           \<and> only_textures_changed n0 s1 s'"
proof (induction evs arbitrary: s rb)
  case Nil
  then show ?case by simp
next
  case (Cons e evs)
  from Cons.prems(2) have e: "fst e < length fs" and evs: "list_all (\<lambda>e. fst e < length fs) evs"
    by simp_all
  from fs e have f: "n0 \<le> snd (snd (fs ! fst e))" by (simp add: list_all_length)
  from Cons.prems(3) have ne: "Suc (loadedCount rb) \<noteq> totalTiles rb" by simp
  from settled_pending [OF ne Cons.prems(1) f, of "snd e"]
  obtain s' where s': "loadSingleTileTexture_settled (fs ! fst e) (snd e) (s, rb)
        = (s', rb\<lparr>loadedCount := Suc (loadedCount rb)\<rparr>)"
    and o: "only_textures_changed n0 s1 s'" by blast
  from Cons.prems(3)
  have lt: "loadedCount (rb\<lparr>loadedCount := Suc (loadedCount rb)\<rparr>) + length evs
      < totalTiles (rb\<lparr>loadedCount := Suc (loadedCount rb)\<rparr>)" by simp
  from Cons.IH [OF o evs lt] show ?case by (simp add: s')
qed

lemma settle_all_snoc:
  "settle_all fs (evs @ [e]) sr = loadSingleTileTexture_settled (fs ! fst e) (snd e) (settle_all fs evs sr)"
  by (induction evs arbitrary: sr) simp_all

subsection \<open>Tile grid: the swap\<close>

lemma dispose_plane_frame:
  "tileGrid (dispose_plane grp pid s) = tileGrid s"
  "scene (dispose_plane grp pid s) = scene s"
  "getOpacityCallback (dispose_plane grp pid s) = getOpacityCallback s"
  "length (planes (dispose_plane grp pid s)) = length (planes s)"
  "length (materials (dispose_plane grp pid s)) = length (materials s)"
  "length (groups (dispose_plane grp pid s)) = length (groups s)"
  "map plane_material (planes (dispose_plane grp pid s)) = map plane_material (planes s)"
  "map opacity (materials (dispose_plane grp pid s)) = map opacity (materials s)"
  by (simp_all add: dispose_plane_def Let_def map_update_same split: option.split)

lemma dispose_plane_material_index:
  "plane_material (planes (dispose_plane grp pid s) ! p) = plane_material (planes s ! p)"
  by (cases "p = pid"; cases "pid < length (planes s)")
     (simp_all add: dispose_plane_def Let_def list_update_beyond split: option.split)

lemma dispose_plane_geometry:
  assumes "i < length (planes s)" "i = pid \<or> geometry_disposed (planes s ! i)"
  shows "geometry_disposed (planes (dispose_plane grp pid s) ! i)"
  using assms
  by (cases "i = pid") (auto simp: dispose_plane_def Let_def split: option.split)

lemma dispose_plane_material:
  assumes "j < length (materials s)"
    "j = plane_material (planes s ! pid) \<or> material_disposed (materials s ! j)"
  shows "material_disposed (materials (dispose_plane grp pid s) ! j)"
proof -
  have m: "plane_material ((planes s)[pid := (planes s ! pid)\<lparr>geometry_disposed := True\<rparr>] ! pid)
      = plane_material (planes s ! pid)"
    by (cases "pid < length (planes s)") (simp_all add: list_update_beyond)
  show ?thesis
    using assms
    by (cases "j = plane_material (planes s ! pid)")
       (auto simp: dispose_plane_def Let_def m split: option.split)
qed

lemma dispose_plane_group:
  "g < length (groups s) \<Longrightarrow>
   groups (dispose_plane (Some g) pid s) ! g = remove1 pid (groups s ! g)"
  by (simp add: dispose_plane_def Let_def)

lemma dispose_all_frame:
  "tileGrid (dispose_all grp cells s) = tileGrid s"
  "scene (dispose_all grp cells s) = scene s"
  "getOpacityCallback (dispose_all grp cells s) = getOpacityCallback s"
  "length (planes (dispose_all grp cells s)) = length (planes s)"
  "length (materials (dispose_all grp cells s)) = length (materials s)"
  "length (groups (dispose_all grp cells s)) = length (groups s)"
  "map plane_material (planes (dispose_all grp cells s)) = map plane_material (planes s)"
  "map opacity (materials (dispose_all grp cells s)) = map opacity (materials s)"
  by (induction cells arbitrary: s; simp add: dispose_plane_frame)+

lemma dispose_all_material_index:
  "plane_material (planes (dispose_all grp cells s) ! p) = plane_material (planes s ! p)"
  by (induction cells arbitrary: s) (simp_all add: dispose_plane_material_index)

lemma dispose_all_geometry:
  "i < length (planes s) \<Longrightarrow>
   i \<in> set (map (\<lambda>kc. cell_plane (snd kc)) cells) \<or> geometry_disposed (planes s ! i) \<Longrightarrow>
   geometry_disposed (planes (dispose_all grp cells s) ! i)"
proof (induction cells arbitrary: s)
  case Nil
  then show ?case by simp
next
  case (Cons c cells)
  let ?s = "dispose_plane grp (cell_plane (snd c)) s"
  have len: "i < length (planes ?s)" using Cons.prems(1) by (simp add: dispose_plane_frame)
  have "i \<in> set (map (\<lambda>kc. cell_plane (snd kc)) cells) \<or> geometry_disposed (planes ?s ! i)"
    using Cons.prems dispose_plane_geometry [of i s "cell_plane (snd c)" grp] by auto
  from Cons.IH [OF len this] show ?case by simp
qed

lemma dispose_all_material:
  "j < length (materials s) \<Longrightarrow>
   j \<in> set (map (\<lambda>kc. plane_material (planes s ! cell_plane (snd kc))) cells)
     \<or> material_disposed (materials s ! j) \<Longrightarrow>
   material_disposed (materials (dispose_all grp cells s) ! j)"
proof (induction cells arbitrary: s)
  case Nil
  then show ?case by simp
next
  case (Cons c cells)
  let ?s = "dispose_plane grp (cell_plane (snd c)) s"
  have len: "j < length (materials ?s)" using Cons.prems(1) by (simp add: dispose_plane_frame)
  have "j \<in> set (map (\<lambda>kc. plane_material (planes ?s ! cell_plane (snd kc))) cells)
      \<or> material_disposed (materials ?s ! j)"
    using Cons.prems dispose_plane_material [of j s "cell_plane (snd c)" grp]
    by (auto simp: dispose_plane_material_index)
  from Cons.IH [OF len this] show ?case by simp
qed

lemma fold_remove1_distinct:
  "distinct ch \<Longrightarrow> distinct (fold remove1 ps ch) \<and> set (fold remove1 ps ch) = set ch - set ps"
  by (induction ps arbitrary: ch) auto

lemma dispose_all_group:
  "g < length (groups s) \<Longrightarrow>
   groups (dispose_all (Some g) cells s) ! g
     = fold remove1 (map (\<lambda>kc. cell_plane (snd kc)) cells) (groups s ! g)"
  by (induction cells arbitrary: s) (simp_all add: dispose_plane_group dispose_plane_frame)

lemma set_opacity_frame:
  "tileGrid (set_opacity v m s) = tileGrid s"
  "scene (set_opacity v m s) = scene s"
  "getOpacityCallback (set_opacity v m s) = getOpacityCallback s"
  "planes (set_opacity v m s) = planes s"
  "groups (set_opacity v m s) = groups s"
  "length (materials (set_opacity v m s)) = length (materials s)"
  "map material_disposed (materials (set_opacity v m s)) = map material_disposed (materials s)"
  by (simp_all add: set_opacity_def map_update_same)

lemma opacity_all_frame:
  "tileGrid (opacity_all v ms s) = tileGrid s"
  "scene (opacity_all v ms s) = scene s"
  "getOpacityCallback (opacity_all v ms s) = getOpacityCallback s"
  "planes (opacity_all v ms s) = planes s"
  "groups (opacity_all v ms s) = groups s"
  "length (materials (opacity_all v ms s)) = length (materials s)"
  "map material_disposed (materials (opacity_all v ms s)) = map material_disposed (materials s)"
  by (induction ms arbitrary: s; simp add: set_opacity_frame)+

lemma opacity_all_value:
  "j < length (materials s) \<Longrightarrow>
   opacity (materials (opacity_all v ms s) ! j) = (if j \<in> set ms then v else opacity (materials s ! j))"
proof (induction ms arbitrary: s)
  case Nil
  then show ?case by simp
next
  case (Cons m ms)
  have len: "j < length (materials (set_opacity v m s))"
    using Cons.prems by (simp add: set_opacity_frame)
  have one: "opacity (materials (set_opacity v m s) ! j) = (if j = m then v else opacity (materials s ! j))"
    using Cons.prems by (simp add: set_opacity_def nth_list_update)
  show ?case unfolding fold_simps Cons.IH [OF len] one by auto
qed

lemma atomic_swap_frame:
  "tileGrid (atomic_swap rb s) = tileGrid s"
  "getOpacityCallback (atomic_swap rb s) = getOpacityCallback s"
  "length (materials (atomic_swap rb s)) = length (materials s)"
  "length (planes (atomic_swap rb s)) = length (planes s)"
  by (simp_all add: atomic_swap_def Let_def opacity_all_frame dispose_all_frame split: option.split)

lemma atomic_swap_disposed:
  assumes "list_all (\<lambda>kc. cell_plane (snd kc) < length (planes s) \<and>
              plane_material (planes s ! cell_plane (snd kc)) < length (materials s)) (oldTileGrid rb)"
  shows "cells_disposed (atomic_swap rb s) (oldTileGrid rb)"
proof -
  let ?D = "dispose_all (oldTileGroup rb) (oldTileGrid rb) s"
  let ?S = "case oldTileGroup rb of Some g \<Rightarrow> ?D\<lparr>scene := remove1 g (scene ?D)\<rparr> | None \<Rightarrow> ?D"
  have pl: "planes (atomic_swap rb s) = planes ?D"
    by (simp add: atomic_swap_def Let_def opacity_all_frame split: option.split)
  have md: "map material_disposed (materials (atomic_swap rb s)) = map material_disposed (materials ?D)"
    by (simp add: atomic_swap_def Let_def opacity_all_frame split: option.split)
  have len: "length (materials (atomic_swap rb s)) = length (materials s)"
    by (rule atomic_swap_frame)
  {
    fix kc assume kc: "kc \<in> set (oldTileGrid rb)"
    with assms have p: "cell_plane (snd kc) < length (planes s)"
      and m: "plane_material (planes s ! cell_plane (snd kc)) < length (materials s)"
      by (simp_all add: list_all_iff)
    have g: "geometry_disposed (planes ?D ! cell_plane (snd kc))"
      using kc by (intro dispose_all_geometry [OF p]) simp
    have pm: "plane_material (planes ?D ! cell_plane (snd kc)) = plane_material (planes s ! cell_plane (snd kc))"
      by (rule dispose_all_material_index)
    have d: "material_disposed (materials ?D ! plane_material (planes s ! cell_plane (snd kc)))"
      using kc by (intro dispose_all_material [OF m]) auto
    have "material_disposed (materials (atomic_swap rb s) ! plane_material (planes s ! cell_plane (snd kc)))
        = material_disposed (materials ?D ! plane_material (planes s ! cell_plane (snd kc)))"
      using m len nth_map [of "plane_material (planes s ! cell_plane (snd kc))" "materials (atomic_swap rb s)" material_disposed]
        nth_map [of "plane_material (planes s ! cell_plane (snd kc))" "materials ?D" material_disposed]
      by (simp add: md dispose_all_frame)
    with g d pm have "geometry_disposed (planes (atomic_swap rb s) ! cell_plane (snd kc)) \<and>
       material_disposed (materials (atomic_swap rb s) ! plane_material (planes (atomic_swap rb s) ! cell_plane (snd kc)))"
      by (simp add: pl)
  }
  then show ?thesis by (simp add: cells_disposed_def list_all_iff)
qed

lemma atomic_swap_removed:
  assumes "case oldTileGroup rb of None \<Rightarrow> True | Some g \<Rightarrow> g < length (groups s) \<and> distinct (groups s ! g)"
    and "distinct (scene s)"
  shows "cells_removed (atomic_swap rb s) (oldTileGroup rb) (oldTileGrid rb)"
proof (cases "oldTileGroup rb")
  case None
  then show ?thesis by (simp add: cells_removed_def)
next
  case (Some g)
  with assms(1) have g: "g < length (groups s)" and d: "distinct (groups s ! g)" by simp_all
  let ?D = "dispose_all (Some g) (oldTileGrid rb) s"
  have sc: "scene (atomic_swap rb s) = remove1 g (scene s)"
    by (simp add: atomic_swap_def Let_def Some opacity_all_frame dispose_all_frame)
  have gr: "groups (atomic_swap rb s) ! g
      = fold remove1 (map (\<lambda>kc. cell_plane (snd kc)) (oldTileGrid rb)) (groups s ! g)"
    by (simp add: atomic_swap_def Let_def Some opacity_all_frame dispose_all_group [OF g])
  have "g \<notin> set (scene (atomic_swap rb s))"
    using assms(2) by (simp add: sc)
  moreover have "list_all (\<lambda>kc. cell_plane (snd kc) \<notin> set (groups (atomic_swap rb s) ! g)) (oldTileGrid rb)"
    using fold_remove1_distinct [OF d, of "map (\<lambda>kc. cell_plane (snd kc)) (oldTileGrid rb)"]
    by (simp add: gr list_all_iff)
  ultimately show ?thesis by (simp add: cells_removed_def Some)
qed

lemma atomic_swap_opacity:
  assumes "newTileMaterials rb = map (\<lambda>kc. cell_material (snd kc)) (tileGrid s)"
    and "list_all (\<lambda>kc. cell_material (snd kc) < length (materials s)) (tileGrid s)"
  shows "cells_opacity (atomic_swap rb s) (currentOpacity (atomic_swap rb s))"
proof -
  let ?D = "dispose_all (oldTileGroup rb) (oldTileGrid rb) s"
  let ?S = "case oldTileGroup rb of Some g \<Rightarrow> ?D\<lparr>scene := remove1 g (scene ?D)\<rparr> | None \<Rightarrow> ?D"
  have cb: "getOpacityCallback ?S = getOpacityCallback s"
    by (simp add: dispose_all_frame split: option.split)
  have lenS: "length (materials ?S) = length (materials s)"
    by (simp add: dispose_all_frame split: option.split)
  have sw: "atomic_swap rb s = opacity_all (currentOpacity s) (newTileMaterials rb) ?S"
    by (simp add: atomic_swap_def Let_def currentOpacity_def cb)
  have cur: "currentOpacity (atomic_swap rb s) = currentOpacity s"
    by (simp add: currentOpacity_def atomic_swap_frame)
  {
    fix kc assume kc: "kc \<in> set (tileGrid s)"
    with assms(2) have "cell_material (snd kc) < length (materials ?S)"
      by (simp add: list_all_iff lenS)
    from opacity_all_value [OF this, of "currentOpacity s" "newTileMaterials rb"] kc
    have "opacity (materials (atomic_swap rb s) ! cell_material (snd kc)) = currentOpacity s"
      by (simp add: sw assms(1))
  }
  then show ?thesis
    by (simp add: cells_opacity_def list_all_iff cur atomic_swap_frame)
qed

subsection \<open>Tile grid: one rebuild from start to swap\<close>

lemma grid_cells_materials:
  "list_all (\<lambda>kc. m0 \<le> cell_material (snd kc) \<and> cell_material (snd kc) < m0 + 9)
     (grid_cells p0 m0 tx tyo)"
  by (simp add: grid_cells_def grid_offsets_def)

lemma grid_cells_length: "length (grid_cells p0 m0 tx tyo) = 9"
  by (simp add: grid_cells_def grid_offsets_def)

lemma list_all_nths: "list_all P xs \<Longrightarrow> list_all P (nths xs I)"
  by (auto simp: list_all_iff dest: in_set_nthsD)

lemma grid_planes_length: "length (grid_planes sky m0 px pyo) = 9"
  by (simp add: grid_planes_def grid_offsets_def)

lemma grid_cells_wf:
  "list_all (\<lambda>kc. cell_plane (snd kc) < length (planes s) + 9 \<and>
       plane_material ((planes s @ grid_planes sky m0 px pyo) ! cell_plane (snd kc)) < m0 + 9)
     (grid_cells (length (planes s)) m0 tx tyo)"
  by (simp add: grid_cells_def grid_planes_def grid_offsets_def nth_append)

lemma nths_grid_all:
  "nths (grid_cells p0 m0 txo tyo) {0, 1, 2, 3, 4, 5, 6, 7, 8} = grid_cells p0 m0 txo tyo"
  by (simp add: grid_cells_def grid_offsets_def nths_Cons)

lemma grid_kept_finite: "grid_kept (Some tx) (Some ty) = {0, 1, 2, 3, 4, 5, 6, 7, 8}"
  by (simp add: grid_kept_def)

lemma grid_kept_nonempty: "nths (grid_cells p0 m0 txo tyo) (grid_kept txo tyo) \<noteq> []"
  by (cases txo; cases tyo) (simp_all add: grid_kept_def grid_cells_def grid_offsets_def nths_Cons)

lemma start_facts:
  obtains txo tyo pxo pyo cells where
    "loadTileGridTextures lat lon s =
       (start_state s txo tyo pxo pyo cells, start_rebuild s cells, start_fetches cells)"
    "list_all (\<lambda>kc. length (materials s) \<le> cell_material (snd kc) \<and>
                     cell_material (snd kc) < length (materials s) + 9) cells"
    "tileX (latLonToTile lat lon ZOOM_LEVEL TILE_SIZE) \<noteq> None \<and>
     tileY (latLonToTile lat lon ZOOM_LEVEL TILE_SIZE) \<noteq> None \<longrightarrow> length cells = 9"
    "list_all (\<lambda>kc. cell_plane (snd kc) < length (planes s) + 9 \<and>
       plane_material ((planes s @ grid_planes (SKY_HEIGHT s) (length (materials s)) pxo pyo)
                         ! cell_plane (snd kc)) < length (materials s) + 9) cells"
    "cells \<noteq> []"
proof (rule that [OF loadTileGridTextures_closed [OF refl refl refl refl]])
  let ?txo = "tileX (latLonToTile lat lon ZOOM_LEVEL TILE_SIZE)"
  let ?tyo = "tileY (latLonToTile lat lon ZOOM_LEVEL TILE_SIZE)"
  let ?all = "grid_cells (length (planes s)) (length (materials s)) ?txo ?tyo"
  show "list_all (\<lambda>kc. length (materials s) \<le> cell_material (snd kc) \<and>
                     cell_material (snd kc) < length (materials s) + 9) (nths ?all (grid_kept ?txo ?tyo))"
    by (intro list_all_nths grid_cells_materials)
  show "?txo \<noteq> None \<and> ?tyo \<noteq> None \<longrightarrow> length (nths ?all (grid_kept ?txo ?tyo)) = 9"
  proof (intro impI, elim conjE)
    assume "?txo \<noteq> None" "?tyo \<noteq> None"
    then obtain tx ty where e: "?txo = Some tx" "?tyo = Some ty" by auto
    show "length (nths ?all (grid_kept ?txo ?tyo)) = 9"
      unfolding e by (simp only: grid_kept_finite nths_grid_all grid_cells_length)
  qed
  show "list_all (\<lambda>kc. cell_plane (snd kc) < length (planes s) + 9 \<and>
       plane_material ((planes s @ grid_planes (SKY_HEIGHT s) (length (materials s))
          (pixelX (latLonToTile lat lon ZOOM_LEVEL TILE_SIZE))
          (pixelY (latLonToTile lat lon ZOOM_LEVEL TILE_SIZE)))
                         ! cell_plane (snd kc)) < length (materials s) + 9) (nths ?all (grid_kept ?txo ?tyo))"
    by (intro list_all_nths grid_cells_wf)
  show "nths ?all (grid_kept ?txo ?tyo) \<noteq> []" by (rule grid_kept_nonempty)
qed

lemma loadTileGridTextures_finite:
  assumes "tileX (latLonToTile lat lon ZOOM_LEVEL TILE_SIZE) = Some tx"
          "tileY (latLonToTile lat lon ZOOM_LEVEL TILE_SIZE) = Some ty"
          "pixelX (latLonToTile lat lon ZOOM_LEVEL TILE_SIZE) = pxo"
          "pixelY (latLonToTile lat lon ZOOM_LEVEL TILE_SIZE) = pyo"
  shows "loadTileGridTextures lat lon s =
    (start_state s (Some tx) (Some ty) pxo pyo
       (grid_cells (length (planes s)) (length (materials s)) (Some tx) (Some ty)),
     start_rebuild s (grid_cells (length (planes s)) (length (materials s)) (Some tx) (Some ty)),
     start_fetches (grid_cells (length (planes s)) (length (materials s)) (Some tx) (Some ty)))"
  using loadTileGridTextures_closed [OF assms, of s] by (simp only: grid_kept_finite nths_grid_all)

lemma only_textures_changed_fields:
  assumes "only_textures_changed n0 s1 s"
  shows "tileGrid s = tileGrid s1" "scene s = scene s1" "groups s = groups s1"
    "planes s = planes s1" "getOpacityCallback s = getOpacityCallback s1"
    "length (materials s) = length (materials s1)"
    "map opacity (materials s) = map opacity (materials s1)"
    "take n0 (materials s) = take n0 (materials s1)"
proof -
  from assms have e: "s\<lparr>materials := materials s1\<rparr> = s1" by (simp add: only_textures_changed_def)
  have "tileGrid (s\<lparr>materials := materials s1\<rparr>) = tileGrid s" by simp
  then show "tileGrid s = tileGrid s1" unfolding e by simp
  have "scene (s\<lparr>materials := materials s1\<rparr>) = scene s" by simp
  then show "scene s = scene s1" unfolding e by simp
  have "groups (s\<lparr>materials := materials s1\<rparr>) = groups s" by simp
  then show "groups s = groups s1" unfolding e by simp
  have "planes (s\<lparr>materials := materials s1\<rparr>) = planes s" by simp
  then show "planes s = planes s1" unfolding e by simp
  have "getOpacityCallback (s\<lparr>materials := materials s1\<rparr>) = getOpacityCallback s" by simp
  then show "getOpacityCallback s = getOpacityCallback s1" unfolding e by simp
  from assms show o: "map opacity (materials s) = map opacity (materials s1)"
    by (simp add: only_textures_changed_def)
  from arg_cong [OF o, of length] show "length (materials s) = length (materials s1)" by simp
  from assms show "take n0 (materials s) = take n0 (materials s1)"
    by (simp add: only_textures_changed_def)
qed

text \<open>What holds of every state reached while fetches are pending.\<close>

lemma pending_state:
  assumes cells: "list_all (\<lambda>kc. length (materials s0) \<le> cell_material (snd kc) \<and>
                     cell_material (snd kc) < length (materials s0) + 9) cells"
    and o: "only_textures_changed (length (materials s0)) (start_state s0 tx tyo px pyo cells) s"
  shows "old_objects_untouched s0 s" "cells_opacity s 0"
    "tileGrid s = cells" "getOpacityCallback s = getOpacityCallback s0"
    "list_all (\<lambda>kc. cell_material (snd kc) < length (materials s)) (tileGrid s)"
proof -
  let ?s1 = "start_state s0 tx tyo px pyo cells"
  note f = only_textures_changed_fields [OF o]
  have m1: "materials ?s1 = materials s0 @ replicate 9 alphaFogMaterial"
    by (simp add: start_state_def)
  show "old_objects_untouched s0 s"
    unfolding old_objects_untouched_def f by (simp add: start_state_def)
  show tg: "tileGrid s = cells" unfolding f by (simp add: start_state_def)
  show "getOpacityCallback s = getOpacityCallback s0" unfolding f by (simp add: start_state_def)
  have len: "length (materials s) = length (materials s0) + 9" unfolding f m1 by simp
  show "list_all (\<lambda>kc. cell_material (snd kc) < length (materials s)) (tileGrid s)"
    using cells unfolding tg len by (simp add: list_all_iff)
  {
    fix kc assume "kc \<in> set cells"
    with cells have lo: "length (materials s0) \<le> cell_material (snd kc)"
      and hi: "cell_material (snd kc) < length (materials s0) + 9" by (simp_all add: list_all_iff)
    have "opacity (materials s ! cell_material (snd kc))
        = map opacity (materials s) ! cell_material (snd kc)" using hi len by simp
    also have "\<dots> = opacity (materials ?s1 ! cell_material (snd kc))"
      unfolding f using hi by (intro nth_map) (simp add: start_state_def)
    also have "\<dots> = 0"
      using lo hi unfolding m1 by (simp add: nth_append alphaFogMaterial_def)
    finally have "opacity (materials s ! cell_material (snd kc)) = 0" .
  }
  then show "cells_opacity s 0" by (simp add: cells_opacity_def tg list_all_iff)
qed

text \<open>A pending state meets what the swap needs of the old cells, given a well-formed start.\<close>

lemma pending_state_old:
  assumes wf: "wf_tiles s0"
    and o: "only_textures_changed (length (materials s0)) (start_state s0 tx tyo px pyo cells) s"
  shows "list_all (\<lambda>kc. cell_plane (snd kc) < length (planes s) \<and>
              plane_material (planes s ! cell_plane (snd kc)) < length (materials s)) (tileGrid s0)"
    "case tileGroup s0 of None \<Rightarrow> True | Some g \<Rightarrow> g < length (groups s) \<and> distinct (groups s ! g)"
    "distinct (scene s)"
proof -
  let ?s1 = "start_state s0 tx tyo px pyo cells"
  note f = only_textures_changed_fields [OF o]
  have len: "length (materials s) = length (materials s0) + 9"
    unfolding f by (simp add: start_state_def)
  have pl: "planes s = planes s0 @ grid_planes (SKY_HEIGHT s0) (length (materials s0)) px pyo"
    unfolding f by (simp add: start_state_def)
  have gr: "groups s = groups s0 @ [map (\<lambda>k. length (planes s0) + k) [0, 1, 2, 3, 4, 5, 6, 7, 8]]"
    unfolding f by (simp add: start_state_def)
  have sc: "scene s = scene s0 @ [length (groups s0)]"
    unfolding f by (simp add: start_state_def)
  show "list_all (\<lambda>kc. cell_plane (snd kc) < length (planes s) \<and>
              plane_material (planes s ! cell_plane (snd kc)) < length (materials s)) (tileGrid s0)"
    using wf unfolding wf_tiles_def pl len by (auto simp: list_all_iff nth_append)
  show "case tileGroup s0 of None \<Rightarrow> True | Some g \<Rightarrow> g < length (groups s) \<and> distinct (groups s ! g)"
    using wf unfolding wf_tiles_def gr by (auto simp: nth_append split: option.splits)
  show "distinct (scene s)"
    using wf unfolding wf_tiles_def sc by (auto simp: list_all_iff)
qed

lemma wf_tiles_init: "wf_tiles init_tiles"
  by (simp add: wf_tiles_def init_tiles_def)

text \<open>A pending state is well-formed when the rebuild started in a well-formed state.\<close>

lemma pending_state_wf:
  assumes wf: "wf_tiles s0"
    and cells: "list_all (\<lambda>kc. cell_plane (snd kc) < length (planes s0) + 9 \<and>
       plane_material ((planes s0 @ grid_planes (SKY_HEIGHT s0) (length (materials s0)) px pyo)
                         ! cell_plane (snd kc)) < length (materials s0) + 9) cells"
    and o: "only_textures_changed (length (materials s0)) (start_state s0 tx tyo px pyo cells) s"
  shows "wf_tiles s"
proof -
  note f = only_textures_changed_fields [OF o]
  have e: "s\<lparr>materials := materials (start_state s0 tx tyo px pyo cells)\<rparr> = start_state s0 tx tyo px pyo cells"
    using o by (simp add: only_textures_changed_def)
  have "tileGroup (s\<lparr>materials := materials (start_state s0 tx tyo px pyo cells)\<rparr>) = tileGroup s" by simp
  then have tg: "tileGroup s = Some (length (groups s0))" unfolding e by (simp add: start_state_def)
  have len: "length (materials s) = length (materials s0) + 9"
    unfolding f by (simp add: start_state_def)
  have pl: "planes s = planes s0 @ grid_planes (SKY_HEIGHT s0) (length (materials s0)) px pyo"
    unfolding f by (simp add: start_state_def)
  have lpl: "length (planes s) = length (planes s0) + 9"
    unfolding pl by (simp add: grid_planes_def grid_offsets_def)
  have gr: "groups s = groups s0 @ [map (\<lambda>k. length (planes s0) + k) [0, 1, 2, 3, 4, 5, 6, 7, 8]]"
    unfolding f by (simp add: start_state_def)
  have sc: "scene s = scene s0 @ [length (groups s0)]"
    unfolding f by (simp add: start_state_def)
  have g: "tileGrid s = cells" unfolding f by (simp add: start_state_def)
  have 1: "list_all (\<lambda>kc. cell_plane (snd kc) < length (planes s) \<and>
                    plane_material (planes s ! cell_plane (snd kc)) < length (materials s)) (tileGrid s)"
    using cells unfolding g len pl by (simp add: grid_planes_length)
  have 2: "length (groups s0) < length (groups s) \<and> distinct (groups s ! length (groups s0))"
    unfolding gr by simp
  have 3: "distinct (scene s)" "list_all (\<lambda>g. g < length (groups s)) (scene s)"
    using wf unfolding wf_tiles_def sc gr by (auto simp: list_all_iff)
  show ?thesis unfolding wf_tiles_def using 1 2 3 by (simp add: tg)
qed

lemma dispose_plane_tileGroup: "tileGroup (dispose_plane grp pid s) = tileGroup s"
  by (simp add: dispose_plane_def Let_def split: option.split)

lemma dispose_plane_other_group:
  "h \<noteq> g \<Longrightarrow> groups (dispose_plane (Some g) pid s) ! h = groups s ! h"
  by (simp add: dispose_plane_def Let_def)

lemma dispose_plane_no_group: "groups (dispose_plane None pid s) = groups s"
  by (simp add: dispose_plane_def Let_def)

lemma dispose_all_tileGroup: "tileGroup (dispose_all grp cells s) = tileGroup s"
  by (induction cells arbitrary: s) (simp_all add: dispose_plane_tileGroup)

lemma dispose_all_other_group:
  "h \<noteq> g \<Longrightarrow> groups (dispose_all (Some g) cells s) ! h = groups s ! h"
  by (induction cells arbitrary: s) (simp_all add: dispose_plane_other_group)

lemma dispose_all_no_group: "groups (dispose_all None cells s) = groups s"
  by (induction cells arbitrary: s) (simp_all add: dispose_plane_no_group)

lemma opacity_all_tileGroup: "tileGroup (opacity_all v ms s) = tileGroup s"
  by (induction ms arbitrary: s) (simp_all add: set_opacity_def)

text \<open>The swap keeps a state well-formed when the old group is not the current one.\<close>

lemma atomic_swap_wf:
  assumes wf: "wf_tiles s" and ne: "oldTileGroup rb \<noteq> tileGroup s"
  shows "wf_tiles (atomic_swap rb s)"
proof -
  let ?D = "dispose_all (oldTileGroup rb) (oldTileGrid rb) s"
  let ?A = "atomic_swap rb s"
  have tg: "tileGrid ?A = tileGrid s" by (rule atomic_swap_frame)
  have lm: "length (materials ?A) = length (materials s)" by (rule atomic_swap_frame)
  have lp: "length (planes ?A) = length (planes s)" by (rule atomic_swap_frame)
  have pl: "planes ?A = planes ?D"
    by (simp add: atomic_swap_def Let_def opacity_all_frame split: option.split)
  have pm: "plane_material (planes ?A ! p) = plane_material (planes s ! p)" for p
    unfolding pl by (rule dispose_all_material_index)
  have grp: "tileGroup ?A = tileGroup s"
    by (simp add: atomic_swap_def Let_def opacity_all_tileGroup dispose_all_tileGroup split: option.split)
  have gr: "groups ?A = groups ?D"
    by (simp add: atomic_swap_def Let_def opacity_all_frame split: option.split)
  have lg: "length (groups ?A) = length (groups s)" unfolding gr by (rule dispose_all_frame)
  have cur: "groups ?A ! g = groups s ! g" if "tileGroup s = Some g" for g
  proof (cases "oldTileGroup rb")
    case None
    then show ?thesis unfolding gr by (simp add: dispose_all_no_group)
  next
    case (Some h)
    with ne that have "g \<noteq> h" by auto
    then show ?thesis unfolding gr Some by (rule dispose_all_other_group)
  qed
  have sc: "set (scene ?A) \<subseteq> set (scene s)" "distinct (scene s) \<Longrightarrow> distinct (scene ?A)"
    using set_remove1_subset [of _ "scene s"]
    by (auto simp: atomic_swap_def Let_def opacity_all_frame dispose_all_frame split: option.split)
  have 1: "list_all (\<lambda>kc. cell_plane (snd kc) < length (planes ?A) \<and>
               plane_material (planes ?A ! cell_plane (snd kc)) < length (materials ?A)) (tileGrid ?A)"
    using wf unfolding wf_tiles_def tg lm lp pm by simp
  have 2: "case tileGroup ?A of None \<Rightarrow> True | Some g \<Rightarrow> g < length (groups ?A) \<and> distinct (groups ?A ! g)"
    using wf cur unfolding wf_tiles_def grp lg by (auto split: option.splits)
  have 3: "distinct (scene ?A)" "list_all (\<lambda>g. g < length (groups ?A)) (scene ?A)"
    using wf sc unfolding wf_tiles_def lg by (auto simp: list_all_iff)
  show ?thesis unfolding wf_tiles_def using 1 2 3 by simp
qed

lemma settled_last:
  assumes last: "Suc (loadedCount rb) = totalTiles rb"
    and o: "only_textures_changed n0 s1 s" and f: "n0 \<le> snd (snd f)"
  shows "\<exists>s'. loadSingleTileTexture_settled f out (s, rb)
           = (atomic_swap (rb\<lparr>loadedCount := Suc (loadedCount rb)\<rparr>) s', rb\<lparr>loadedCount := Suc (loadedCount rb)\<rparr>)
         \<and> only_textures_changed n0 s1 s'"
  using assms
  by (cases out)
     (auto simp: loadSingleTileTexture_settled_def onLoadCallback_last
        only_textures_changed_texture_loaded)

text \<open>
  Claim C1. One rebuild, started in a well-formed state, with its fetches settling in any
  order and each either with a texture or with an error. The number of fetches issued is
  the count the callbacks wait for, and it is 9 when the projection of the coordinate is
  finite. After fewer callbacks than that, every object that existed before the rebuild (the
  old planes, their geometries and materials, the old group and the scene's list up to it)
  is exactly as it was and every cell of the new grid has opacity 0. After exactly that many,
  every old cell is disposed, is no longer a child of the old group, the old group is no
  longer in the scene, and every cell of the new grid has the opacity the callback of the
  slider returns (0.5 when none is registered). Throughout, the state stays well-formed, so
  the next rebuild starts as this one did.
\<close>

theorem rebuild_swaps_after_all_fetches_settle:
  assumes wf: "wf_tiles s0"
    and start: "loadTileGridTextures lat lon s0 = (s1, rb, fs)"
    and evs: "list_all (\<lambda>e. fst e < length fs) evs"
    and run: "settle_all fs evs (s1, rb) = (s, rb')"
  shows "length fs = totalTiles rb \<and>
         (tileX (latLonToTile lat lon ZOOM_LEVEL TILE_SIZE) \<noteq> None \<and>
          tileY (latLonToTile lat lon ZOOM_LEVEL TILE_SIZE) \<noteq> None \<longrightarrow> totalTiles rb = 9) \<and>
         (length evs < totalTiles rb \<longrightarrow> old_objects_untouched s0 s \<and> cells_opacity s 0) \<and>
         (length evs = totalTiles rb \<longrightarrow>
            cells_disposed s (tileGrid s0) \<and> cells_removed s (tileGroup s0) (tileGrid s0) \<and>
            cells_opacity s (currentOpacity s0)) \<and>
         (length evs \<le> totalTiles rb \<longrightarrow> wf_tiles s)"
proof -
  obtain tx tyo px pyo cells where
    st: "loadTileGridTextures lat lon s0 =
       (start_state s0 tx tyo px pyo cells, start_rebuild s0 cells, start_fetches cells)"
    and cells: "list_all (\<lambda>kc. length (materials s0) \<le> cell_material (snd kc) \<and>
                     cell_material (snd kc) < length (materials s0) + 9) cells"
    and nine: "tileX (latLonToTile lat lon ZOOM_LEVEL TILE_SIZE) \<noteq> None \<and>
       tileY (latLonToTile lat lon ZOOM_LEVEL TILE_SIZE) \<noteq> None \<longrightarrow> length cells = 9"
    and cwf: "list_all (\<lambda>kc. cell_plane (snd kc) < length (planes s0) + 9 \<and>
       plane_material ((planes s0 @ grid_planes (SKY_HEIGHT s0) (length (materials s0)) px pyo)
                         ! cell_plane (snd kc)) < length (materials s0) + 9) cells"
    and nonempty: "cells \<noteq> []"
    by (rule start_facts [where lat = lat and lon = lon and s = s0])
  let ?n0 = "length (materials s0)"
  from st start have s1: "s1 = start_state s0 tx tyo px pyo cells"
    and rb: "rb = start_rebuild s0 cells" and fs: "fs = start_fetches cells" by simp_all
  have tot: "totalTiles rb = length cells" and lc: "loadedCount rb = 0"
    and og: "oldTileGrid rb = tileGrid s0" and ogr: "oldTileGroup rb = tileGroup s0"
    and nm: "newTileMaterials rb = map (\<lambda>kc. cell_material (snd kc)) cells"
    by (simp_all add: rb start_rebuild_def)
  have lfs: "length fs = length cells" by (simp add: fs start_fetches_def)
  have fsok: "list_all (\<lambda>f. ?n0 \<le> snd (snd f)) fs"
    using cells by (simp add: fs start_fetches_def list_all_iff)
  have o1: "only_textures_changed ?n0 s1 s1" by (rule only_textures_changed_refl)
  have before: "old_objects_untouched s0 s \<and> cells_opacity s 0 \<and> wf_tiles s"
    if lt: "length evs < totalTiles rb"
  proof -
    from lt have "loadedCount rb + length evs < totalTiles rb" by (simp add: lc)
    from settle_all_pending [OF fsok o1 evs this] run
    have "only_textures_changed ?n0 s1 s" by auto
    from pending_state [OF cells this [unfolded s1]] pending_state_wf [OF wf cwf this [unfolded s1]]
    show ?thesis by simp
  qed
  have after: "cells_disposed s (tileGrid s0) \<and> cells_removed s (tileGroup s0) (tileGrid s0) \<and>
            cells_opacity s (currentOpacity s0) \<and> wf_tiles s" if eq: "length evs = totalTiles rb"
  proof -
    have "0 < length cells" using nonempty by simp
    with eq tot obtain evs' e where ev: "evs = evs' @ [e]"
      by (cases evs rule: rev_cases) auto
    from evs ev have evs': "list_all (\<lambda>e. fst e < length fs) evs'" and e: "fst e < length fs"
      by simp_all
    from eq ev have lt: "loadedCount rb + length evs' < totalTiles rb" by (simp add: lc)
    from settle_all_pending [OF fsok o1 evs' lt]
    obtain s' where s': "settle_all fs evs' (s1, rb) = (s', rb\<lparr>loadedCount := loadedCount rb + length evs'\<rparr>)"
      and o': "only_textures_changed ?n0 s1 s'" by blast
    let ?rb = "rb\<lparr>loadedCount := loadedCount rb + length evs'\<rparr>"
    have last: "Suc (loadedCount ?rb) = totalTiles ?rb" using eq ev by (simp add: lc)
    from fsok e have fe: "?n0 \<le> snd (snd (fs ! fst e))" by (simp add: list_all_length)
    from settled_last [OF last o' fe, of "snd e"]
    obtain s'' where fin: "loadSingleTileTexture_settled (fs ! fst e) (snd e) (s', ?rb)
           = (atomic_swap (?rb\<lparr>loadedCount := Suc (loadedCount ?rb)\<rparr>) s'', ?rb\<lparr>loadedCount := Suc (loadedCount ?rb)\<rparr>)"
      and o'': "only_textures_changed ?n0 s1 s''" by blast
    let ?rb2 = "?rb\<lparr>loadedCount := Suc (loadedCount ?rb)\<rparr>"
    have s: "s = atomic_swap ?rb2 s''"
      using run unfolding ev settle_all_snoc s' fin by auto
    have og2: "oldTileGrid ?rb2 = tileGrid s0" and ogr2: "oldTileGroup ?rb2 = tileGroup s0"
      and nm2: "newTileMaterials ?rb2 = map (\<lambda>kc. cell_material (snd kc)) cells"
      by (simp_all add: og ogr nm)
    note P = pending_state [OF cells o'' [unfolded s1]]
    note Q = pending_state_old [OF wf o'' [unfolded s1]]
    have d: "cells_disposed s (tileGrid s0)"
      unfolding s using atomic_swap_disposed [where s = s'' and rb = ?rb2] Q(1) by (simp only: og2)
    have r: "cells_removed s (tileGroup s0) (tileGrid s0)"
      unfolding s using atomic_swap_removed [where s = s'' and rb = ?rb2] Q(2,3) by (simp only: og2 ogr2)
    have "cells_opacity s (currentOpacity s)"
      unfolding s by (rule atomic_swap_opacity) (use nm P in simp_all)
    moreover have "currentOpacity s = currentOpacity s0"
      unfolding s by (simp add: currentOpacity_def atomic_swap_frame P)
    moreover have "wf_tiles s"
    proof -
      have w: "wf_tiles s''" by (rule pending_state_wf [OF wf cwf o'' [unfolded s1]])
      have e: "s''\<lparr>materials := materials s1\<rparr> = s1"
        using o'' by (simp add: only_textures_changed_def)
      have "tileGroup (s''\<lparr>materials := materials s1\<rparr>) = tileGroup s''" by simp
      then have "tileGroup s'' = tileGroup s1" unfolding e by simp
      then have "tileGroup s'' = Some (length (groups s0))"
        by (simp add: s1 start_state_def)
      moreover have "tileGroup s0 \<noteq> Some (length (groups s0))"
        using wf by (auto simp: wf_tiles_def)
      ultimately have "oldTileGroup ?rb2 \<noteq> tileGroup s''" by (simp add: ogr)
      from atomic_swap_wf [OF w this] show ?thesis unfolding s .
    qed
    ultimately show ?thesis using d r by simp
  qed
  have "length evs < totalTiles rb \<or> length evs = totalTiles rb" if "length evs \<le> totalTiles rb"
    using that by linarith
  then show ?thesis using before after nine by (auto simp: lfs tot)
qed

subsection \<open>Tile grid: the grid and the placement of its cells\<close>

lemma dispose_plane_view: "grid_view (dispose_plane grp pid s) = grid_view s"
  by (simp add: grid_view_def dispose_plane_def Let_def map_update_same split: option.split)

lemma set_opacity_view: "grid_view (set_opacity v m s) = grid_view s"
  by (simp add: grid_view_def set_opacity_def)

lemma atomic_swap_view: "grid_view (atomic_swap rb s) = grid_view s"
proof -
  have d: "grid_view (fold (\<lambda>kc. dispose_plane grp (cell_plane (snd kc))) cells t) = grid_view t"
    for grp cells t
    by (induction cells arbitrary: t) (simp_all add: dispose_plane_view)
  have o: "grid_view (fold (set_opacity v) ms t) = grid_view t" for v ms t
    by (induction ms arbitrary: t) (simp_all add: set_opacity_view)
  have r: "grid_view (t\<lparr>scene := x\<rparr>) = grid_view t" for t x by (simp add: grid_view_def)
  show ?thesis by (simp add: atomic_swap_def Let_def o r d split: option.split)
qed

lemma texture_loaded_view: "grid_view (texture_loaded f s) = grid_view s"
  by (simp add: grid_view_def texture_loaded_def Let_def)

lemma settled_view: "grid_view (fst (loadSingleTileTexture_settled f out sr)) = grid_view (fst sr)"
  by (cases out)
     (simp_all add: loadSingleTileTexture_settled_def onLoadCallback_def Let_def
        atomic_swap_view texture_loaded_view)

lemma settle_all_view: "grid_view (fst (settle_all fs evs sr)) = grid_view (fst sr)"
  by (induction evs arbitrary: sr) (simp_all add: settled_view)

lemma grid_offsets_set: "set grid_offsets = {- 1, 0, 1} \<times> {- 1, 0, 1}"
  by (auto simp: grid_offsets_def)

lemma grid_cells_offsets:
  "map (\<lambda>kc. (relativeX (snd kc), relativeY (snd kc))) (grid_cells p0 m0 tx tyo) = grid_offsets"
  by (simp add: grid_cells_def grid_offsets_def)

lemma grid_cells_indices:
  "list_all (\<lambda>kc. cell_tileX (snd kc) = Some (tx + relativeX (snd kc)) \<and>
                  cell_tileY (snd kc) = Some (ty + relativeY (snd kc)))
     (grid_cells p0 m0 (Some tx) (Some ty))"
  by (simp add: grid_cells_def grid_offsets_def)

text \<open>
  Claim C3, amended. For a coordinate whose projection is finite (the tile indices
  \<^verbatim>\<open>latLonToTile\<close> computes are numbers, as for every latitude strictly between the poles),
  from the moment the synchronous part of the rebuild returns, and so after any number of
  its fetches have settled, in particular all: the grid has exactly 9 cells, their relative
  offsets are pairwise different and are exactly the pairs of \<open>{-1, 0, 1} \<times> {-1, 0, 1}\<close>, each
  cell's tile index is the index \<^verbatim>\<open>latLonToTile\<close> gives for the coordinate plus the cell's
  offset, and that index is the recorded center.
\<close>

theorem grid_has_nine_cells_around_center:
  assumes finx: "tileX (latLonToTile lat lon ZOOM_LEVEL TILE_SIZE) = Some tx"
    and fin: "tileY (latLonToTile lat lon ZOOM_LEVEL TILE_SIZE) = Some ty"
    and start: "loadTileGridTextures lat lon s0 = (s1, rb, fs)"
    and run: "settle_all fs evs (s1, rb) = (s, rb')"
  shows "length (tileGrid s) = 9 \<and>
         distinct (map (\<lambda>kc. (relativeX (snd kc), relativeY (snd kc))) (tileGrid s)) \<and>
         set (map (\<lambda>kc. (relativeX (snd kc), relativeY (snd kc))) (tileGrid s))
           = {- 1, 0, 1} \<times> {- 1, 0, 1} \<and>
         list_all (\<lambda>kc. cell_tileX (snd kc) = Some (tx + relativeX (snd kc)) \<and>
                        cell_tileY (snd kc) = Some (ty + relativeY (snd kc)))
           (tileGrid s) \<and>
         centerTile s = (Some tx, Some ty)"
proof -
  let ?cells = "grid_cells (length (planes s0)) (length (materials s0)) (Some tx) (Some ty)"
  from loadTileGridTextures_finite [OF finx fin refl refl, of s0] start
  have s1: "s1 = start_state s0 (Some tx) (Some ty) (pixelX (latLonToTile lat lon ZOOM_LEVEL TILE_SIZE))
      (pixelY (latLonToTile lat lon ZOOM_LEVEL TILE_SIZE)) ?cells" by simp
  from settle_all_view [of fs evs "(s1, rb)"] run have v: "grid_view s = grid_view s1" by simp
  then have tg: "tileGrid s = ?cells" and ct: "centerTile s = (Some tx, Some ty)"
    by (simp_all add: grid_view_def s1 start_state_def)
  have d: "distinct grid_offsets" by (simp add: grid_offsets_def)
  show ?thesis
    unfolding tg ct grid_cells_offsets grid_offsets_set
    using grid_cells_indices [of tx ty] d by (simp add: grid_cells_length)
qed

lemma latLonToTile_pixel_tile:
  "pixelX (latLonToTile lat lon z t) = Some px \<Longrightarrow> \<exists>tx. tileX (latLonToTile lat lon z t) = Some tx"
  "pixelY (latLonToTile lat lon z t) = Some py \<Longrightarrow> \<exists>ty. tileY (latLonToTile lat lon z t) = Some ty"
  by (auto simp: latLonToTile_def Let_def Math_floor_def fmul_def fsub_def Option.bind_eq_Some_conv)

lemma start_state_positions:
  "map (\<lambda>kc. ((relativeX (snd kc), relativeY (snd kc)),
              position_x (planes (start_state s txo tyo (Some px) (Some py) cells) ! cell_plane (snd kc)),
              position_z (planes (start_state s txo tyo (Some px) (Some py) cells) ! cell_plane (snd kc))))
     (grid_cells (length (planes s)) m0 txo' tyo')
   = map (\<lambda>d. (d, Some (TILE_SIZE / 2 - of_int px + of_int (fst d) * TILE_SIZE),
                  Some (TILE_SIZE / 2 - of_int py - of_int (snd d) * TILE_SIZE))) grid_offsets"
  by (simp add: start_state_def grid_cells_def grid_planes_def grid_offsets_def nth_append)

lemma grid_cells_planes:
  "map (\<lambda>kc. cell_plane (snd kc)) (grid_cells p0 m0 txo tyo) = map (\<lambda>k. p0 + k) [0, 1, 2, 3, 4, 5, 6, 7, 8]"
  by (simp add: grid_cells_def grid_offsets_def)

text \<open>
  Claim C5. With the pixel offset \<open>(px, py)\<close> that \<^verbatim>\<open>latLonToTile\<close> gives for the coordinate of
  the rebuild, the offset is the one stored for the rebuild; the grid holds, in the order of
  the loops, one cell for each offset \<open>(dx, dy)\<close> of \<open>{-1, 0, 1} \<times> {-1, 0, 1}\<close>, each with a plane
  of its own, and the plane of the cell at \<open>(dx, dy)\<close> is at \<open>x = TILE_SIZE/2 - px + dx * TILE_SIZE\<close>,
  \<open>z = TILE_SIZE/2 - py - dy * TILE_SIZE\<close>; in particular there is a cell at offset \<open>(0, 0)\<close>,
  and its plane is at \<open>x = TILE_SIZE/2 - px\<close>, \<open>z = TILE_SIZE/2 - py\<close>. Settling fetches and
  the swap move no plane.
\<close>

theorem cells_placed_around_center:
  assumes px: "pixelX (latLonToTile lat lon ZOOM_LEVEL TILE_SIZE) = Some px"
    and py: "pixelY (latLonToTile lat lon ZOOM_LEVEL TILE_SIZE) = Some py"
    and start: "loadTileGridTextures lat lon s0 = (s1, rb, fs)"
    and run: "settle_all fs evs (s1, rb) = (s, rb')"
  shows "currentPixelOffsets s = (Some px, Some py) \<and>
         map (\<lambda>kc. ((relativeX (snd kc), relativeY (snd kc)),
                    position_x (planes s ! cell_plane (snd kc)),
                    position_z (planes s ! cell_plane (snd kc)))) (tileGrid s)
           = map (\<lambda>d. (d, Some ((TILE_SIZE / 2 - of_int px) + of_int (fst d) * TILE_SIZE),
                          Some ((TILE_SIZE / 2 - of_int py) - of_int (snd d) * TILE_SIZE)))
               [(- 1, - 1), (- 1, 0), (- 1, 1), (0, - 1), (0, 0), (0, 1), (1, - 1), (1, 0), (1, 1)] \<and>
         distinct (map (\<lambda>kc. cell_plane (snd kc)) (tileGrid s)) \<and>
         list_all (\<lambda>kc. cell_plane (snd kc) < length (planes s)) (tileGrid s) \<and>
         (\<exists>kc \<in> set (tileGrid s).
            relativeX (snd kc) = 0 \<and> relativeY (snd kc) = 0 \<and>
            position_x (planes s ! cell_plane (snd kc)) = Some (TILE_SIZE / 2 - of_int px) \<and>
            position_z (planes s ! cell_plane (snd kc)) = Some (TILE_SIZE / 2 - of_int py))"
proof -
  from latLonToTile_pixel_tile(1) [OF px] latLonToTile_pixel_tile(2) [OF py] obtain tx ty
    where finx: "tileX (latLonToTile lat lon ZOOM_LEVEL TILE_SIZE) = Some tx"
      and fin: "tileY (latLonToTile lat lon ZOOM_LEVEL TILE_SIZE) = Some ty" by blast
  let ?cells = "grid_cells (length (planes s0)) (length (materials s0)) (Some tx) (Some ty)"
  let ?s1 = "start_state s0 (Some tx) (Some ty) (Some px) (Some py) ?cells"
  from loadTileGridTextures_finite [OF finx fin px py, of s0] start
  have s1: "s1 = ?s1" by simp
  from settle_all_view [of fs evs "(s1, rb)"] run have v: "grid_view s = grid_view ?s1"
    by (simp add: s1)
  then have tg: "tileGrid s = ?cells" and off: "currentPixelOffsets s = (Some px, Some py)"
    and pos: "map (\<lambda>p. (position_x p, position_y p, position_z p)) (planes s)
            = map (\<lambda>p. (position_x p, position_y p, position_z p)) (planes ?s1)"
    by (simp_all add: grid_view_def start_state_def)
  have len: "length (planes s) = length (planes s0) + 9" and len1: "length (planes ?s1) = length (planes s0) + 9"
    using arg_cong [OF pos, of length] by (simp_all add: start_state_def grid_planes_def grid_offsets_def)
  have same: "position_x (planes s ! p) = position_x (planes ?s1 ! p) \<and>
              position_z (planes s ! p) = position_z (planes ?s1 ! p)"
    if "p < length (planes s0) + 9" for p
    using arg_cong [OF pos, of "\<lambda>xs. xs ! p"] that len len1 by simp
  have rng: "list_all (\<lambda>kc. cell_plane (snd kc) < length (planes s0) + 9) ?cells"
    by (simp add: grid_cells_def grid_offsets_def)
  have "map (\<lambda>kc. ((relativeX (snd kc), relativeY (snd kc)),
                   position_x (planes s ! cell_plane (snd kc)),
                   position_z (planes s ! cell_plane (snd kc)))) ?cells
      = map (\<lambda>kc. ((relativeX (snd kc), relativeY (snd kc)),
                   position_x (planes ?s1 ! cell_plane (snd kc)),
                   position_z (planes ?s1 ! cell_plane (snd kc)))) ?cells"
    using rng same by (intro map_cong refl) (auto simp: list_all_iff)
  also have "\<dots> = map (\<lambda>d. (d, Some (TILE_SIZE / 2 - of_int px + of_int (fst d) * TILE_SIZE),
                  Some (TILE_SIZE / 2 - of_int py - of_int (snd d) * TILE_SIZE))) grid_offsets"
    by (rule start_state_positions)
  finally have placed: "map (\<lambda>kc. ((relativeX (snd kc), relativeY (snd kc)),
                   position_x (planes s ! cell_plane (snd kc)),
                   position_z (planes s ! cell_plane (snd kc)))) (tileGrid s)
      = map (\<lambda>d. (d, Some (TILE_SIZE / 2 - of_int px + of_int (fst d) * TILE_SIZE),
                  Some (TILE_SIZE / 2 - of_int py - of_int (snd d) * TILE_SIZE))) grid_offsets"
    unfolding tg .
  have own: "distinct (map (\<lambda>kc. cell_plane (snd kc)) (tileGrid s))"
    unfolding tg grid_cells_planes by simp
  have alloc: "list_all (\<lambda>kc. cell_plane (snd kc) < length (planes s)) (tileGrid s)"
    unfolding tg len by (rule rng)
  have "((0, 0), Some (TILE_SIZE / 2 - of_int px), Some (TILE_SIZE / 2 - of_int py))
      \<in> set (map (\<lambda>kc. ((relativeX (snd kc), relativeY (snd kc)),
                   position_x (planes s ! cell_plane (snd kc)),
                   position_z (planes s ! cell_plane (snd kc)))) (tileGrid s))"
    unfolding placed by (simp add: grid_offsets_def)
  then have centre: "\<exists>kc \<in> set (tileGrid s).
            relativeX (snd kc) = 0 \<and> relativeY (snd kc) = 0 \<and>
            position_x (planes s ! cell_plane (snd kc)) = Some (TILE_SIZE / 2 - of_int px) \<and>
            position_z (planes s ! cell_plane (snd kc)) = Some (TILE_SIZE / 2 - of_int py)"
    by (auto simp: image_iff intro!: bexI)
  have go: "grid_offsets = [(- 1, - 1), (- 1, 0), (- 1, 1), (0, - 1), (0, 0), (0, 1), (1, - 1), (1, 0), (1, 1)]"
    by (simp add: grid_offsets_def)
  show ?thesis using off placed own alloc centre unfolding go by simp
qed

subsection \<open>Tile grid: the example runs\<close>

lemma example_first_wf: "wf_tiles (fst example_first)"
  unfolding example_first_def Let_def
  apply (simp add: loadTileGridTextures_finite [of 0 0 1024 1024 "Some 0" "Some 0"] latLonToTile_example_0)
  apply (simp add: example_events_def example_init_def start_state_def start_rebuild_def start_fetches_def grid_cells_def grid_planes_def grid_offsets_def init_tiles_def
     loadSingleTileTexture_settled_def onLoadCallback_def texture_loaded_def atomic_swap_def set_opacity_def Let_def wf_tiles_def)
  done

text \<open>
  The example run satisfies the hypotheses of claim C1: after eight of the nine fetches of
  the second rebuild nothing of the first grid has changed and the second grid is invisible;
  after the ninth the first grid is disposed and removed and the second grid is shown.
\<close>

theorem rebuild_swaps_after_all_fetches_settle_witness:
  "wf_tiles (fst example_first) \<and>
   list_all (\<lambda>e. fst e < length (snd (snd example_second))) example_events \<and>
   length (snd (snd example_second)) = 9 \<and>
   totalTiles (fst (snd example_second)) = 9 \<and>
   length (take 8 example_events) < totalTiles (fst (snd example_second)) \<and>
   old_objects_untouched (fst example_first)
     (fst (settle_all (snd (snd example_second)) (take 8 example_events)
        (fst example_second, fst (snd example_second)))) \<and>
   cells_opacity
     (fst (settle_all (snd (snd example_second)) (take 8 example_events)
        (fst example_second, fst (snd example_second)))) 0 \<and>
   length example_events = totalTiles (fst (snd example_second)) \<and>
   cells_disposed
     (fst (settle_all (snd (snd example_second)) example_events
        (fst example_second, fst (snd example_second))))
     (tileGrid (fst example_first)) \<and>
   cells_removed
     (fst (settle_all (snd (snd example_second)) example_events
        (fst example_second, fst (snd example_second))))
     (tileGroup (fst example_first)) (tileGrid (fst example_first)) \<and>
   cells_opacity
     (fst (settle_all (snd (snd example_second)) example_events
        (fst example_second, fst (snd example_second))))
     (currentOpacity (fst example_first)) \<and>
   wf_tiles
     (fst (settle_all (snd (snd example_second)) example_events
        (fst example_second, fst (snd example_second))))"
proof -
  let ?s0 = "fst example_first"
  let ?s1 = "fst example_second" and ?rb = "fst (snd example_second)" and ?fs = "snd (snd example_second)"
  have st: "loadTileGridTextures 0 90 ?s0 = (?s1, ?rb, ?fs)" by (simp add: example_second_def)
  have fin: "tileX (latLonToTile 0 90 ZOOM_LEVEL TILE_SIZE) \<noteq> None \<and>
      tileY (latLonToTile 0 90 ZOOM_LEVEL TILE_SIZE) \<noteq> None"
    by (simp add: latLonToTile_example_90)
  have run: "settle_all ?fs evs (?s1, ?rb) = (fst (settle_all ?fs evs (?s1, ?rb)), snd (settle_all ?fs evs (?s1, ?rb)))"
    for evs by simp
  have e0: "list_all (\<lambda>e. fst e < length ?fs) []" by simp
  from rebuild_swaps_after_all_fetches_settle [OF example_first_wf st e0 run] fin
  have n: "length ?fs = 9" "totalTiles ?rb = 9" by simp_all
  have e9: "list_all (\<lambda>e. fst e < length ?fs) example_events"
    unfolding n by (simp add: example_events_def)
  have e8: "list_all (\<lambda>e. fst e < length ?fs) (take 8 example_events)"
    unfolding n by (simp add: example_events_def)
  have l9: "length example_events = totalTiles ?rb" unfolding n by (simp add: example_events_def)
  have l8: "length (take 8 example_events) < totalTiles ?rb" unfolding n by (simp add: example_events_def)
  have le9: "length example_events \<le> totalTiles ?rb" using l9 by simp
  from rebuild_swaps_after_all_fetches_settle [OF example_first_wf st e9 run]
       rebuild_swaps_after_all_fetches_settle [OF example_first_wf st e8 run]
       example_first_wf e9 n l9 l8 le9
  show ?thesis by blast
qed

text \<open>
  Claim C3, as stated, at latitude -90: the argument of the tangent is 0, the tangent is 0,
  its logarithm is not finite, the three keys of a column are the same string, and the
  completed grid has 3 cells.
\<close>

theorem grid_has_nine_cells_around_center_counterexample:
  "(- 90 :: real) \<le> - 90 \<and> (- 90 :: real) \<le> 90 \<and> (- 180 :: real) \<le> 0 \<and> (0 :: real) \<le> 180 \<and>
   totalTiles (fst (snd example_pole)) = 3 \<and>
   loadedCount (snd example_pole_done) = 3 \<and>
   length (tileGrid (fst example_pole_done)) = 3 \<and>
   map (\<lambda>kc. (relativeX (snd kc), relativeY (snd kc))) (tileGrid (fst example_pole_done))
     = [(- 1, 1), (0, 1), (1, 1)]"
proof -
  note st = loadTileGridTextures_closed [OF latLonToTile_example_pole, of init_tiles]
  have tt: "totalTiles (fst (snd example_pole)) = 3"
    unfolding example_pole_def st
    by (simp add: start_rebuild_def grid_cells_def grid_offsets_def nths_Cons grid_kept_def)
  have tg: "tileGrid (fst example_pole) = nths (grid_cells 0 0 (Some 1024) None) {2, 5, 8}"
    unfolding example_pole_def st by (simp add: start_state_def init_tiles_def grid_kept_def)
  have "grid_view (fst example_pole_done) = grid_view (fst example_pole)"
    unfolding example_pole_done_def by (simp only: settle_all_view fst_conv)
  then have tg': "tileGrid (fst example_pole_done) = nths (grid_cells 0 0 (Some 1024) None) {2, 5, 8}"
    by (simp add: grid_view_def tg)
  have lc: "loadedCount (snd example_pole_done) = 3"
    unfolding example_pole_done_def example_pole_def st
    by (simp add: start_rebuild_def grid_cells_def grid_offsets_def nths_Cons grid_kept_def
        loadSingleTileTexture_settled_def onLoadCallback_def Let_def)
  show ?thesis
    unfolding tg' using tt lc by (simp add: grid_cells_def grid_offsets_def nths_Cons)
qed

theorem grid_has_nine_cells_around_center_witness:
  "tileX (latLonToTile 0 0 ZOOM_LEVEL TILE_SIZE) = Some 1024 \<and>
   tileY (latLonToTile 0 0 ZOOM_LEVEL TILE_SIZE) = Some 1024 \<and>
   length (tileGrid (fst example_first)) = 9 \<and>
   distinct (map (\<lambda>kc. (relativeX (snd kc), relativeY (snd kc))) (tileGrid (fst example_first))) \<and>
   set (map (\<lambda>kc. (relativeX (snd kc), relativeY (snd kc))) (tileGrid (fst example_first)))
     = {- 1, 0, 1} \<times> {- 1, 0, 1} \<and>
   list_all (\<lambda>kc. cell_tileX (snd kc) = Some (1024 + relativeX (snd kc)) \<and>
                  cell_tileY (snd kc) = Some (1024 + relativeY (snd kc)))
     (tileGrid (fst example_first)) \<and>
   centerTile (fst example_first) = (Some 1024, Some 1024)"
proof -
  have fin: "tileY (latLonToTile 0 0 ZOOM_LEVEL TILE_SIZE) = Some 1024"
    by (simp add: latLonToTile_example_0)
  have finx: "tileX (latLonToTile 0 0 ZOOM_LEVEL TILE_SIZE) = Some 1024"
    by (simp add: latLonToTile_example_0)
  let ?r = "loadTileGridTextures 0 0 example_init"
  have st: "?r = (fst ?r, fst (snd ?r), snd (snd ?r))" by simp
  have run: "settle_all (snd (snd ?r)) example_events (fst ?r, fst (snd ?r))
      = (fst example_first, snd example_first)"
    by (simp add: example_first_def Let_def)
  from grid_has_nine_cells_around_center [OF finx fin st run] fin finx
  show ?thesis by simp
qed

text \<open>
  The rebuild at longitude -153 on the equator satisfies the hypotheses of claim C5: the
  pixel offset is \<open>(599, 0)\<close>, and the center cell is 99 units left of the origin.
\<close>

theorem cells_placed_around_center_witness:
  "pixelX (latLonToTile 0 (- 153) ZOOM_LEVEL TILE_SIZE) = Some 599 \<and>
   pixelY (latLonToTile 0 (- 153) ZOOM_LEVEL TILE_SIZE) = Some 0 \<and>
   currentPixelOffsets (fst example_offset) = (Some 599, Some 0) \<and>
   map (\<lambda>kc. ((relativeX (snd kc), relativeY (snd kc)),
              position_x (planes (fst example_offset) ! cell_plane (snd kc)),
              position_z (planes (fst example_offset) ! cell_plane (snd kc))))
     (tileGrid (fst example_offset))
     = [((- 1, - 1), Some (- 1099), Some 1500), ((- 1, 0), Some (- 1099), Some 500),
        ((- 1, 1), Some (- 1099), Some (- 500)), ((0, - 1), Some (- 99), Some 1500),
        ((0, 0), Some (- 99), Some 500), ((0, 1), Some (- 99), Some (- 500)),
        ((1, - 1), Some 901, Some 1500), ((1, 0), Some 901, Some 500),
        ((1, 1), Some 901, Some (- 500))] \<and>
   distinct (map (\<lambda>kc. cell_plane (snd kc)) (tileGrid (fst example_offset)))"
proof -
  have px: "pixelX (latLonToTile 0 (- 153) ZOOM_LEVEL TILE_SIZE) = Some 599"
    and py: "pixelY (latLonToTile 0 (- 153) ZOOM_LEVEL TILE_SIZE) = Some 0"
    by (simp_all add: latLonToTile_example_153)
  let ?r = "loadTileGridTextures 0 (- 153) example_init"
  have st: "?r = (fst ?r, fst (snd ?r), snd (snd ?r))" by simp
  have run: "settle_all (snd (snd ?r)) example_events (fst ?r, fst (snd ?r))
      = (fst example_offset, snd example_offset)"
    by (simp add: example_offset_def Let_def)
  from cells_placed_around_center [OF px py st run] px py
  show ?thesis by (simp add: TILE_SIZE_def)
qed

subsection \<open>Orientation filter: one frame\<close>

text \<open>
  Claim C6. On a frame in device-orientation mode the new smoothed rotation is the
  specification's filter step: the slerp of the previous smoothed rotation (the raw sample
  itself on the first frame) toward the raw sample by \<open>alpha = dt / (tau + dt)\<close>, with
  \<open>tau = lerp TAU_SLOW TAU_BASE k\<close>, \<open>k = clamp (angularDelta / 0.25) 0 1\<close>,
  \<open>angularDelta = 2 * arccos \<bar>clamp (dot smoothed raw) (-1) 1\<bar>\<close> and \<open>dt\<close> the elapsed seconds,
  at least 0.001; the camera gets the same rotation, and the filter is initialised.
\<close>

theorem updateControls_is_filter_step:
  assumes "hasDeviceOrientation s" "controls s"
  shows "smoothQ (updateControls dot slerp t raw s)
           = spec_filter_step dot slerp (max 0.001 ((t - lastT s) / 1000)) raw
               (if orientationInitialized s then smoothQ s else raw) \<and>
         camera_quaternion (updateControls dot slerp t raw s)
           = smoothQ (updateControls dot slerp t raw s) \<and>
         orientationInitialized (updateControls dot slerp t raw s) \<and>
         lastT (updateControls dot slerp t raw s) = t"
  using assms by (simp add: updateControls_def spec_filter_step_def angularDelta_def Let_def)

lemma updateControls_off:
  "\<not> (hasDeviceOrientation s \<and> controls s) \<Longrightarrow>
   updateControls dot slerp t raw s = s\<lparr>lastT := t\<rparr>"
  by (auto simp: updateControls_def Let_def)

theorem updateControls_is_filter_step_witness:
  "hasDeviceOrientation example_controls \<and> controls example_controls \<and>
   smoothQ (updateControls quat_dot quat_slerp 16 quat_identity example_controls)
     = spec_filter_step quat_dot quat_slerp (2 / 125) quat_identity \<lparr>qx = 1, qy = 0, qz = 0, qw = 0\<rparr> \<and>
   camera_quaternion (updateControls quat_dot quat_slerp 16 quat_identity example_controls)
     = smoothQ (updateControls quat_dot quat_slerp 16 quat_identity example_controls) \<and>
   orientationInitialized (updateControls quat_dot quat_slerp 16 quat_identity example_controls) \<and>
   lastT (updateControls quat_dot quat_slerp 16 quat_identity example_controls) = 16"
proof -
  have m: "hasDeviceOrientation example_controls" "controls example_controls"
    by (simp_all add: example_controls_def)
  from updateControls_is_filter_step [OF m, of quat_dot quat_slerp 16 quat_identity] m
  show ?thesis by (simp add: example_controls_def)
qed


subsection \<open>Location tracker: override and fallback\<close>

lemma getLatLonOnce_frame:
  "gpsTrackingIntervalId (fst (getLatLonOnce a s)) = gpsTrackingIntervalId s"
  "timers (fst (getLatLonOnce a s)) = timers s"
  "gpsOverride (fst (getLatLonOnce a s)) = gpsOverride s"
  "started (fst (getLatLonOnce a s)) = started s"
  by (simp_all add: getLatLonOnce_def showFallbackLocationAlert_def Let_def
        split: option.split geo_answer.split)

lemma refreshLocationAndTiles_frame:
  "gpsTrackingIntervalId (refreshLocationAndTiles a s) = gpsTrackingIntervalId s"
  "timers (refreshLocationAndTiles a s) = timers s"
  "gpsOverride (refreshLocationAndTiles a s) = gpsOverride s"
  "started (refreshLocationAndTiles a s) = started s"
  using getLatLonOnce_frame [of a s]
  by (auto simp: refreshLocationAndTiles_def split: prod.split settled.split)

lemma getLatLonOnce_override:
  "gpsOverride s = Some c \<Longrightarrow> getLatLonOnce a s = (s, Resolved c)"
  by (simp add: getLatLonOnce_def)

lemma trackingTick_override:
  "gpsOverride s \<noteq> None \<Longrightarrow>
   \<not> snd (trackingTick available s) \<and> gpsTrackingIntervalId (fst (trackingTick available s)) = None"
  by (auto simp: trackingTick_def stopGPSTracking_def split: option.split)

lemma applySelectedLocation_stops:
  assumes "selectedLocation s = Some c"
  shows "gpsOverride (applySelectedLocation a s) = Some c"
    "gpsTrackingIntervalId (applySelectedLocation a s) = None"
    "gpsTrackingIntervalId s = Some h \<Longrightarrow> h \<notin> set (timers (applySelectedLocation a s))"
    "started (applySelectedLocation a s) = started s"
  using assms
  by (simp_all add: applySelectedLocation_def Let_def refreshLocationAndTiles_frame
        stopGPSTracking_def split: option.split)

lemma useCurrentGPS_restarts:
  assumes "started s"
  shows "gpsOverride (useCurrentGPS a s) = None"
    "\<exists>h. gpsTrackingIntervalId (useCurrentGPS a s) = Some h \<and> h \<in> set (timers (useCurrentGPS a s))"
  using assms
  by (simp_all add: useCurrentGPS_def Let_def refreshLocationAndTiles_frame
        startGPSTracking_def stopGPSTracking_def split: option.split)

text \<open>
  Claim C8. Live tracking runs (the session has started, the tracking timer is active, no
  override is set) and a location is selected. Applying it sets the override, clears the
  timer handle and leaves the timer inactive; in any state with an override the timer
  callback makes no position query; every position query then resolves with the override
  and changes nothing, whatever the browser would answer; and clearing the override
  (\<^verbatim>\<open>useCurrentGPS\<close>) removes it and leaves a tracking timer active again.
\<close>

theorem override_suspends_polling:
  assumes running: "started s" "gpsTrackingIntervalId s = Some h" "h \<in> set (timers s)"
    and override: "gpsOverride s = None"
    and sel: "selectedLocation s = Some c"
  shows "gpsOverride (applySelectedLocation a s) = Some c \<and>
         gpsTrackingIntervalId (applySelectedLocation a s) = None \<and>
         h \<notin> set (timers (applySelectedLocation a s)) \<and>
         (\<forall>available s'. gpsOverride s' \<noteq> None \<longrightarrow> \<not> snd (trackingTick available s')) \<and>
         (\<forall>a'. getLatLonOnce a' (applySelectedLocation a s) = (applySelectedLocation a s, Resolved c)) \<and>
         gpsOverride (useCurrentGPS a2 (applySelectedLocation a s)) = None \<and>
         (\<exists>h'. gpsTrackingIntervalId (useCurrentGPS a2 (applySelectedLocation a s)) = Some h' \<and>
               h' \<in> set (timers (useCurrentGPS a2 (applySelectedLocation a s))))"
proof -
  note A = applySelectedLocation_stops [where a = a, OF sel]
  have st: "started (applySelectedLocation a s)" using A(4) running(1) by simp
  show ?thesis
    using A(1,2) A(3) [OF running(2)] trackingTick_override getLatLonOnce_override [OF A(1)]
      useCurrentGPS_restarts [where a = a2, OF st]
    by blast
qed

theorem override_suspends_polling_witness:
  "started example_geo \<and> gpsTrackingIntervalId example_geo = Some 1 \<and> 1 \<in> set (timers example_geo) \<and>
   gpsOverride example_geo = None \<and> selectedLocation example_geo = Some (10, 20) \<and>
   gpsOverride (applySelectedLocation (Position (1, 2)) example_geo) = Some (10, 20) \<and>
   gpsTrackingIntervalId (applySelectedLocation (Position (1, 2)) example_geo) = None \<and>
   1 \<notin> set (timers (applySelectedLocation (Position (1, 2)) example_geo)) \<and>
   getLatLonOnce (Position (3, 4)) (applySelectedLocation (Position (1, 2)) example_geo)
     = (applySelectedLocation (Position (1, 2)) example_geo, Resolved (10, 20)) \<and>
   gpsOverride (useCurrentGPS (Position (5, 6)) (applySelectedLocation (Position (1, 2)) example_geo)) = None \<and>
   (\<exists>h'. gpsTrackingIntervalId (useCurrentGPS (Position (5, 6)) (applySelectedLocation (Position (1, 2)) example_geo)) = Some h' \<and>
         h' \<in> set (timers (useCurrentGPS (Position (5, 6)) (applySelectedLocation (Position (1, 2)) example_geo))))"
proof -
  have h: "started example_geo" "gpsTrackingIntervalId example_geo = Some 1"
    "1 \<in> set (timers example_geo)" "gpsOverride example_geo = None"
    "selectedLocation example_geo = Some (10, 20)"
    by (simp_all add: example_geo_def geo_init_def startGPSTracking_def stopGPSTracking_def Let_def)
  from override_suspends_polling [where a = "Position (1, 2)" and ?a2.0 = "Position (5, 6)", OF h] h
  show ?thesis by blast
qed

text \<open>
  Claim C9 at \<^verbatim>\<open>navigator.geolocation\<close> missing, in the state of a freshly loaded module: the
  promise resolves with the fallback after the alert and the fallback becomes the current
  location, but the last-known position stays unset; the error callback of the sibling branch
  stores it.
\<close>

theorem getLatLonOnce_unavailable_leaves_lastKnownPosition:
  "getLatLonOnce Unavailable geo_init
     = (geo_init\<lparr>alerts := [FallbackLocationAlert], currentLocation := Some FALLBACK\<rparr>, Resolved FALLBACK) \<and>
   lastKnownPosition (fst (getLatLonOnce Unavailable geo_init)) = None \<and>
   lastKnownPosition (fst (getLatLonOnce PositionError geo_init)) = Some FALLBACK"
  by (simp add: getLatLonOnce_def showFallbackLocationAlert_def geo_init_def)

text \<open>What both fallback branches do, and where they differ.\<close>

lemma getLatLonOnce_fallback:
  assumes "gpsOverride s = None" "answer = Unavailable \<or> answer = PositionError"
  shows "snd (getLatLonOnce answer s) = Resolved FALLBACK"
    "alerts (fst (getLatLonOnce answer s)) = alerts s @ [FallbackLocationAlert]"
    "currentLocation (fst (getLatLonOnce answer s)) = Some FALLBACK"
    "answer = PositionError \<Longrightarrow> lastKnownPosition (fst (getLatLonOnce answer s)) = Some FALLBACK"
    "answer = Unavailable \<Longrightarrow> lastKnownPosition (fst (getLatLonOnce answer s)) = lastKnownPosition s"
  using assms by (auto simp: getLatLonOnce_def showFallbackLocationAlert_def Let_def)

end
